theory Spec2Isabelle
  imports Complex_Main "HOL-Library.Log_Nat" "HOL-Library.AList"
begin

section \<open>JavaScript values\<close>

text \<open>
  The client is browser JavaScript. Its strings are sequences of UTF-16 code units, so a
  string is a list of naturals (each below 65536 in every string the platform produces);
  \<open>js\<close> turns an ASCII literal of the sources into such a list.
\<close>

type_synonym jsstring = "nat list"

definition js :: "string \<Rightarrow> jsstring" where
  "js s = map of_char s"

text \<open>
  Numbers are IEEE doubles: a finite value is the rational it denotes; negative zero is
  identified with zero, since no operation of the sources tells them apart.
\<close>

datatype jsnum = NaN | PInf | NInf | Fin rat

text \<open>
  \<open>JFunction\<close> stands for a built-in function object reached through a prototype
  (the sources can meet only \<open>String.prototype.sub\<close>, see \<open>get_prop\<close>).
\<close>

datatype jsval =
    JUndefined
  | JNull
  | JBool bool
  | JNum jsnum
  | JStr jsstring
  | JArr "jsval list"
  | JObj "(jsstring \<times> jsval) list"
  | JFunction jsstring

text \<open>What the sources can throw. \<open>Error m\<close> is an \<open>Error\<close> object with the message \<open>m\<close>.\<close>

datatype exn = TypeError | SyntaxError | URIError | InvalidCharacterError | Error jsstring

text \<open>ToBoolean: what \<open>!v\<close>, \<open>v || w\<close> and \<open>if (v)\<close> test.\<close>

fun truthy :: "jsval \<Rightarrow> bool" where
  "truthy JUndefined = False"
| "truthy JNull = False"
| "truthy (JBool b) = b"
| "truthy (JNum n) = (n \<noteq> NaN \<and> n \<noteq> Fin 0)"
| "truthy (JStr s) = (s \<noteq> [])"
| "truthy (JArr xs) = True"
| "truthy (JObj kvs) = True"
| "truthy (JFunction f) = True"

text \<open>\<open>a || b\<close>\<close>

definition js_or :: "jsval \<Rightarrow> jsval \<Rightarrow> jsval" where
  "js_or a b = (if truthy a then a else b)"

subsection \<open>Properties\<close>

text \<open>Canonical array index keys: a natural in decimal.\<close>

fun dec_digits :: "nat \<Rightarrow> jsstring" where
  "dec_digits n = (if n < 10 then [48 + n] else dec_digits (n div 10) @ [48 + n mod 10])"

text \<open>
  The own enumerable properties of a value, in the order an object spread copies them:
  an object's entries, an array's elements and a string's code units under their indices;
  the other primitives have none.
\<close>

fun own_props :: "jsval \<Rightarrow> (jsstring \<times> jsval) list" where
  "own_props (JObj kvs) = kvs"
| "own_props (JArr xs) = zip (map dec_digits [0..<length xs]) xs"
| "own_props (JStr s) = zip (map dec_digits [0..<length s]) (map (\<lambda>c. JStr [c]) s)"
| "own_props v = []"

text \<open>
  Reading \<open>v.k\<close> (or \<open>v[k]\<close>) where \<open>v\<close> is neither \<open>null\<close> nor \<open>undefined\<close>:
  an own property, else what the prototype chain holds. Of the property names the sources
  read, the standard prototypes define a single one, \<open>sub\<close>, on strings
  (\<open>String.prototype.sub\<close>); every other name that is not an own property reads as
  \<open>undefined\<close> here, so \<open>read_prop\<close> is exact for the names the sources read.
\<close>

definition read_prop :: "jsval \<Rightarrow> jsstring \<Rightarrow> jsval" where
  "read_prop v k =
     (case map_of (own_props v) k of
        Some x \<Rightarrow> x
      | None \<Rightarrow>
          (case v of
             JStr s \<Rightarrow> if k = js ''sub'' then JFunction (js ''String.prototype.sub'')
                       else JUndefined
           | _ \<Rightarrow> JUndefined))"

text \<open>Reading a property of \<open>null\<close> or \<open>undefined\<close> throws a TypeError.\<close>

definition get_prop :: "jsval \<Rightarrow> jsstring \<Rightarrow> exn + jsval" where
  "get_prop v k = (if v = JUndefined \<or> v = JNull then Inl TypeError else Inr (read_prop v k))"

text \<open>
  The own properties of an object are kept in the order in which the platform lists
  them: first the array indices (the keys that are the decimal form of a natural below
  \<open>2^32 - 1\<close>) in ascending order, then the other keys in the order in which they
  were created. \<open>index_of\<close> recognises an array index.
\<close>

definition index_of :: "jsstring \<Rightarrow> nat option" where
  "index_of k =
     (if k \<noteq> [] \<and> list_all (\<lambda>c. 48 \<le> c \<and> c \<le> 57) k then
        (let i = foldl (\<lambda>n c. 10 * n + (c - 48)) 0 k in
         if dec_digits i = k \<and> i < 4294967295 then Some i else None)
      else None)"

text \<open>A new array index \<open>i\<close> goes before the first key that is a greater index or no index.\<close>

fun insert_index ::
  "nat \<Rightarrow> jsstring \<Rightarrow> jsval \<Rightarrow> (jsstring \<times> jsval) list \<Rightarrow> (jsstring \<times> jsval) list" where
  "insert_index i k v [] = [(k, v)]"
| "insert_index i k v ((k', v') # kvs) =
     (case index_of k' of
        Some j \<Rightarrow> if j < i then (k', v') # insert_index i k v kvs
                  else (k, v) # (k', v') # kvs
      | None \<Rightarrow> (k, v) # (k', v') # kvs)"

text \<open>
  Creating or setting the own property \<open>k\<close>: a key that is there keeps its place and
  takes the new value; a new key that is no array index goes to the end (this is what
  \<open>AList.update\<close> does in both cases); a new array index goes among the indices.
\<close>

definition set_prop ::
  "jsstring \<Rightarrow> jsval \<Rightarrow> (jsstring \<times> jsval) list \<Rightarrow> (jsstring \<times> jsval) list" where
  "set_prop k v kvs =
     (case index_of k of
        None \<Rightarrow> AList.update k v kvs
      | Some i \<Rightarrow> if map_of kvs k \<noteq> None then AList.update k v kvs
                  else insert_index i k v kvs)"

text \<open>
  An object literal with a spread, \<open>{k1: v1, ..., ...d}\<close>: the own properties of
  \<open>d\<close> are set one by one on the object built so far.
\<close>

definition spread :: "(jsstring \<times> jsval) list \<Rightarrow> jsval \<Rightarrow> (jsstring \<times> jsval) list" where
  "spread obj d = fold (\<lambda>(k, v) acc. set_prop k v acc) (own_props d) obj"

section \<open>The session and the browser state of auth.js\<close>

text \<open>
  \<open>getUserFromToken\<close> returns \<open>null\<close> or the object literal
  \<open>{user_id, email, is_onboarded}\<close>: a record, under \<open>option\<close>. The fields hold
  whatever the token's payload held.
\<close>

record session =
  user_id :: jsval
  email :: jsval
  is_onboarded :: jsval

text \<open>
  The part of the browser that auth.js reads and writes: the \<open>localStorage\<close> slot
  under \<open>TOKEN_KEY\<close>, \<open>window.location.pathname\<close>, the last value assigned to
  \<open>window.location.href\<close> (\<open>None\<close>: nothing assigned, no navigation started), and
  \<open>Date.now()\<close> in milliseconds.
\<close>

record browser =
  token_slot :: "jsstring option"
  pathname :: jsstring
  href :: "jsstring option"
  clock :: int

subsection \<open>Redirect logic\<close>

definition redirectBasedOnStatus :: "session option \<Rightarrow> browser \<Rightarrow> browser" where
  "redirectBasedOnStatus user w =
     (let currentPath = pathname w in
      case user of
        None \<Rightarrow>
          if currentPath \<noteq> js ''/login.html'' then w\<lparr>href := Some (js ''/login.html'')\<rparr>
          else w
      | Some u \<Rightarrow>
          if \<not> truthy (is_onboarded u) then
            (if currentPath \<noteq> js ''/'' \<and> currentPath \<noteq> js ''/index.html''
             then w\<lparr>href := Some (js ''/'')\<rparr> else w)
          else if currentPath = js ''/login.html'' \<or> currentPath = js ''/''
                  \<or> currentPath = js ''/index.html''
          then w\<lparr>href := Some (js ''/menu.html'')\<rparr>
          else w)"

subsection \<open>The policy table of the specification\<close>

text \<open>
  The specification's navigation guard is a pure function of the session state and the
  current path. Its three pages are the login page, the root (onboarding) page, which
  answers to two paths, and the menu page; the client serves them under the paths below.
\<close>

datatype session_state = Absent | NotOnboarded | Onboarded

definition session_state_of :: "session option \<Rightarrow> session_state" where
  "session_state_of user =
     (case user of None \<Rightarrow> Absent
      | Some u \<Rightarrow> if truthy (is_onboarded u) then Onboarded else NotOnboarded)"

definition login_page :: jsstring where "login_page = js ''/login.html''"
definition root_page :: jsstring where "root_page = js ''/''"
definition index_page :: jsstring where "index_page = js ''/index.html''"
definition menu_page :: jsstring where "menu_page = js ''/menu.html''"

fun redirectTarget :: "session_state \<Rightarrow> jsstring \<Rightarrow> jsstring option" where
  "redirectTarget Absent p = (if p \<noteq> login_page then Some login_page else None)"
| "redirectTarget NotOnboarded p =
     (if p \<noteq> root_page \<and> p \<noteq> index_page then Some root_page else None)"
| "redirectTarget Onboarded p =
     (if p = login_page \<or> p = root_page \<or> p = index_page then Some menu_page else None)"

text \<open>Producing a target replaces the browser location; producing none leaves the state alone.\<close>

definition apply_redirect :: "jsstring option \<Rightarrow> browser \<Rightarrow> browser" where
  "apply_redirect t w = (case t of None \<Rightarrow> w | Some p \<Rightarrow> w\<lparr>href := Some p\<rparr>)"

section \<open>The menu viewer (menu.js)\<close>

subsection \<open>processMenuData\<close>

definition days :: "jsstring list" where
  "days = [js ''monday'', js ''tuesday'', js ''wednesday'', js ''thursday'', js ''friday'',
           js ''saturday'', js ''sunday'']"

definition mealTypes :: "jsstring list" where
  "mealTypes = [js ''breakfast'', js ''lunch'', js ''dinner'']"

text \<open>The object pushed for a present slot: \<open>{day: day, type: mealType, ...dish}\<close>.\<close>

definition dish_entry :: "jsstring \<Rightarrow> jsstring \<Rightarrow> jsval \<Rightarrow> jsval" where
  "dish_entry day mealType dish =
     JObj (spread [(js ''day'', JStr day), (js ''type'', JStr mealType)] dish)"

text \<open>
  The two \<open>forEach\<close> loops, as recursion over the fixed key lists; \<open>acc\<close> is the
  module variable \<open>allDishes\<close>. A \<open>return\<close> inside the outer callback goes on with
  the next day.
\<close>

fun meals_loop :: "jsval \<Rightarrow> jsstring \<Rightarrow> jsstring list \<Rightarrow> jsval list \<Rightarrow> exn + jsval list" where
  "meals_loop dailyMenu day [] acc = Inr acc"
| "meals_loop dailyMenu day (mealType # ms) acc =
     (case get_prop dailyMenu mealType of
        Inl e \<Rightarrow> Inl e
      | Inr dish \<Rightarrow>
          meals_loop dailyMenu day ms
            (if truthy dish then acc @ [dish_entry day mealType dish] else acc))"

fun days_loop :: "jsval \<Rightarrow> jsstring list \<Rightarrow> jsval list \<Rightarrow> exn + jsval list" where
  "days_loop menu [] acc = Inr acc"
| "days_loop menu (day # ds) acc =
     (case get_prop menu day of
        Inl e \<Rightarrow> Inl e
      | Inr dailyMenu \<Rightarrow>
          if \<not> truthy dailyMenu then days_loop menu ds acc
          else (case meals_loop dailyMenu day mealTypes acc of
                  Inl e \<Rightarrow> Inl e
                | Inr acc' \<Rightarrow> days_loop menu ds acc'))"

text \<open>
  \<open>processMenuData\<close> resets \<open>allDishes\<close> and fills it; the result is the new value
  of \<open>allDishes\<close>, or the exception that leaves the function.
\<close>

definition processMenuData :: "jsval \<Rightarrow> exn + jsval list" where
  "processMenuData menu = days_loop menu days []"

subsection \<open>The search handler\<close>

text \<open>\<open>s.includes(t)\<close>: \<open>t\<close> occurs in \<open>s\<close> at some position.\<close>

fun str_includes :: "jsstring \<Rightarrow> jsstring \<Rightarrow> bool" where
  "str_includes [] t = (t = [])"
| "str_includes (c # cs) t = (take (length t) (c # cs) = t \<or> str_includes cs t)"

text \<open>
  \<open>String.prototype.toLowerCase\<close> works from the Unicode case tables of the platform,
  which are no part of the sources: the model takes the function as the parameter
  \<open>toLowerCase\<close>. Calling \<open>v.toLowerCase()\<close> on a value that is not a string throws
  a TypeError (\<open>undefined\<close> has no properties, the others no such method).
\<close>

definition call_toLowerCase :: "(jsstring \<Rightarrow> jsstring) \<Rightarrow> jsval \<Rightarrow> exn + jsstring" where
  "call_toLowerCase toLowerCase v =
     (case v of JStr s \<Rightarrow> Inr (toLowerCase s) | _ \<Rightarrow> Inl TypeError)"

text \<open>\<open>ingredients.some(ing => ing.toLowerCase().includes(term))\<close> stops at the first hit.\<close>

fun ingredients_some :: "(jsstring \<Rightarrow> jsstring) \<Rightarrow> jsstring \<Rightarrow> jsval list \<Rightarrow> exn + bool" where
  "ingredients_some toLowerCase term [] = Inr False"
| "ingredients_some toLowerCase term (ing # ings) =
     (case call_toLowerCase toLowerCase ing of
        Inl e \<Rightarrow> Inl e
      | Inr s \<Rightarrow> if str_includes s term then Inr True
                 else ingredients_some toLowerCase term ings)"

text \<open>The callback of \<open>filter\<close>; \<open>||\<close> evaluates its right operand only when the left is false.\<close>

definition dish_matches :: "(jsstring \<Rightarrow> jsstring) \<Rightarrow> jsstring \<Rightarrow> jsval \<Rightarrow> exn + bool" where
  "dish_matches toLowerCase term dish =
     (case get_prop dish (js ''name'') of
        Inl e \<Rightarrow> Inl e
      | Inr n \<Rightarrow>
     (case call_toLowerCase toLowerCase n of
        Inl e \<Rightarrow> Inl e
      | Inr lname \<Rightarrow>
     if str_includes lname term then Inr True else
     (case get_prop dish (js ''description'') of
        Inl e \<Rightarrow> Inl e
      | Inr d \<Rightarrow>
     (case call_toLowerCase toLowerCase d of
        Inl e \<Rightarrow> Inl e
      | Inr ldesc \<Rightarrow>
     if str_includes ldesc term then Inr True else
     (case get_prop dish (js ''ingredients'') of
        Inl e \<Rightarrow> Inl e
      | Inr ings \<Rightarrow>
     (case ings of
        JArr xs \<Rightarrow> ingredients_some toLowerCase term xs
      | _ \<Rightarrow> Inl TypeError))))))"

fun filter_dishes :: "(jsstring \<Rightarrow> jsstring) \<Rightarrow> jsstring \<Rightarrow> jsval list \<Rightarrow> exn + jsval list" where
  "filter_dishes toLowerCase term [] = Inr []"
| "filter_dishes toLowerCase term (dish # ds) =
     (case dish_matches toLowerCase term dish of
        Inl e \<Rightarrow> Inl e
      | Inr b \<Rightarrow>
          (case filter_dishes toLowerCase term ds of
             Inl e \<Rightarrow> Inl e
           | Inr r \<Rightarrow> Inr (if b then dish # r else r)))"

text \<open>
  The input handler: \<open>v\<close> is the text of the search box, the result is the list handed
  to \<open>renderDishes\<close>, or the exception that leaves the handler.
\<close>

definition search :: "(jsstring \<Rightarrow> jsstring) \<Rightarrow> jsstring \<Rightarrow> jsval list \<Rightarrow> exn + jsval list" where
  "search toLowerCase v allDishes =
     (let term = toLowerCase v in filter_dishes toLowerCase term allDishes)"

subsection \<open>Search as the specification describes it\<close>

text \<open>
  A dish of the data model has a name and a description, both strings, and a list of
  ingredient strings.
\<close>

fun str_of :: "jsval \<Rightarrow> jsstring option" where
  "str_of (JStr s) = Some s"
| "str_of v = None"

fun strs_of :: "jsval \<Rightarrow> jsstring list option" where
  "strs_of (JArr xs) = (if list_all (\<lambda>x. str_of x \<noteq> None) xs
                        then Some (map (\<lambda>x. the (str_of x)) xs) else None)"
| "strs_of v = None"

definition is_dish :: "jsval \<Rightarrow> bool" where
  "is_dish d \<longleftrightarrow>
     d \<noteq> JUndefined \<and> d \<noteq> JNull
     \<and> str_of (read_prop d (js ''name'')) \<noteq> None
     \<and> str_of (read_prop d (js ''description'')) \<noteq> None
     \<and> strs_of (read_prop d (js ''ingredients'')) \<noteq> None"

definition dish_name :: "jsval \<Rightarrow> jsstring" where
  "dish_name d = the (str_of (read_prop d (js ''name'')))"

definition dish_description :: "jsval \<Rightarrow> jsstring" where
  "dish_description d = the (str_of (read_prop d (js ''description'')))"

definition dish_ingredients :: "jsval \<Rightarrow> jsstring list" where
  "dish_ingredients d = the (strs_of (read_prop d (js ''ingredients'')))"

text \<open>
  \<open>s\<close> contains \<open>t\<close> as a substring, case-insensitively: after both are put in lower
  case, \<open>t\<close> occurs in \<open>s\<close>.
\<close>

definition ci_substring :: "(jsstring \<Rightarrow> jsstring) \<Rightarrow> jsstring \<Rightarrow> jsstring \<Rightarrow> bool" where
  "ci_substring toLowerCase s t \<longleftrightarrow> (\<exists>ps ss. toLowerCase s = ps @ toLowerCase t @ ss)"

definition dish_contains :: "(jsstring \<Rightarrow> jsstring) \<Rightarrow> jsstring \<Rightarrow> jsval \<Rightarrow> bool" where
  "dish_contains toLowerCase t d \<longleftrightarrow>
     ci_substring toLowerCase (dish_name d) t
     \<or> ci_substring toLowerCase (dish_description d) t
     \<or> (\<exists>ing \<in> set (dish_ingredients d). ci_substring toLowerCase ing t)"

text \<open>
  On strings of ASCII code units \<open>toLowerCase\<close> maps \<open>A\<close> to \<open>Z\<close> onto \<open>a\<close> to
  \<open>z\<close> and leaves the rest alone; \<open>ascii_lower\<close> is that function, for the examples.
\<close>

definition ascii_lower :: "jsstring \<Rightarrow> jsstring" where
  "ascii_lower s = map (\<lambda>c. if 65 \<le> c \<and> c \<le> 90 then c + 32 else c) s"

subsection \<open>Example menu\<close>

definition example_pasta :: jsval where
  "example_pasta =
     JObj [(js ''name'', JStr (js ''Pasta'')), (js ''description'', JStr (js ''Fresh'')),
           (js ''ingredients'', JArr [JStr (js ''wheat flour''), JStr (js ''egg'')]),
           (js ''preparation_steps'', JArr [JStr (js ''Boil'')])]"

definition example_soup :: jsval where
  "example_soup =
     JObj [(js ''name'', JStr (js ''Soup'')), (js ''description'', JStr (js ''Hot'')),
           (js ''ingredients'', JArr [JStr (js ''leek'')]),
           (js ''preparation_steps'', JArr [])]"

definition example_menu :: jsval where
  "example_menu =
     JObj [(js ''tuesday'', JObj [(js ''dinner'', example_soup)]),
           (js ''monday'', JObj [(js ''lunch'', example_pasta), (js ''breakfast'', example_soup)])]"

text \<open>A dish that brings its own \<open>day\<close> and two members under array indices.\<close>

definition example_relabelled :: jsval where
  "example_relabelled =
     JObj [(js ''0'', JStr (js ''first'')), (js ''1'', JStr (js ''second'')),
           (js ''name'', JStr (js ''Stew'')), (js ''day'', JStr (js ''friday''))]"

definition example_dishes :: "jsval list" where
  "example_dishes = [dish_entry (js ''monday'') (js ''lunch'') example_pasta,
                     dish_entry (js ''tuesday'') (js ''dinner'') example_soup]"

section \<open>Decoding the token (auth.js)\<close>

subsection \<open>Splitting and the base64 alphabet\<close>

text \<open>\<open>s.split(sep)\<close> for a separator of one code unit: the empty string gives one empty part.\<close>

fun split_on :: "nat \<Rightarrow> jsstring \<Rightarrow> jsstring list" where
  "split_on sep [] = [[]]"
| "split_on sep (c # cs) =
     (if c = sep then [] # split_on sep cs
      else (case split_on sep cs of
              [] \<Rightarrow> [[c]]
            | part # parts \<Rightarrow> (c # part) # parts))"

text \<open>\<open>s.replace(/x/g, y)\<close> for single code units \<open>x\<close> and \<open>y\<close>.\<close>

definition replace_all :: "nat \<Rightarrow> nat \<Rightarrow> jsstring \<Rightarrow> jsstring" where
  "replace_all x y s = map (\<lambda>c. if c = x then y else c) s"

text \<open>
  \<open>atob\<close> is the forgiving-base64 decode of the HTML standard: ASCII whitespace is
  removed; when the length is then a multiple of four, one or two trailing \<open>=\<close> are
  removed; a length that leaves the remainder one, or a code unit outside the base64
  alphabet, is an InvalidCharacterError; every four characters give three bytes, and a
  rest of two or three characters gives one or two bytes, its spare bits dropped. The
  result is a binary string: one code unit below 256 for each byte.
\<close>

definition b64_value :: "nat \<Rightarrow> nat option" where
  "b64_value c =
     (if 65 \<le> c \<and> c \<le> 90 then Some (c - 65)
      else if 97 \<le> c \<and> c \<le> 122 then Some (c - 71)
      else if 48 \<le> c \<and> c \<le> 57 then Some (c + 4)
      else if c = 43 then Some 62
      else if c = 47 then Some 63
      else None)"

fun b64_values :: "jsstring \<Rightarrow> nat list option" where
  "b64_values [] = Some []"
| "b64_values (c # cs) =
     (case b64_value c of
        None \<Rightarrow> None
      | Some v \<Rightarrow> (case b64_values cs of None \<Rightarrow> None | Some vs \<Rightarrow> Some (v # vs)))"

fun b64_bytes :: "nat list \<Rightarrow> nat list" where
  "b64_bytes (a # b # c # d # rest) =
     (let n = ((a * 64 + b) * 64 + c) * 64 + d
      in n div 65536 # (n div 256) mod 256 # n mod 256 # b64_bytes rest)"
| "b64_bytes [a, b, c] = (let n = ((a * 64 + b) * 64 + c) div 4 in [n div 256, n mod 256])"
| "b64_bytes [a, b] = [(a * 64 + b) div 16]"
| "b64_bytes rest = []"

definition ascii_whitespace :: "nat \<Rightarrow> bool" where
  "ascii_whitespace c \<longleftrightarrow> c = 9 \<or> c = 10 \<or> c = 12 \<or> c = 13 \<or> c = 32"

definition strip_padding :: "jsstring \<Rightarrow> jsstring" where
  "strip_padding d =
     (if length d mod 4 = 0 then
        (case rev d of
           p # q # r \<Rightarrow> if p = 61 \<and> q = 61 then rev r
                        else if p = 61 then rev (q # r) else d
         | _ \<Rightarrow> d)
      else d)"

definition atob :: "jsstring \<Rightarrow> exn + nat list" where
  "atob s =
     (let d = strip_padding (filter (\<lambda>c. \<not> ascii_whitespace c) s) in
      if length d mod 4 = 1 then Inl InvalidCharacterError
      else (case b64_values d of
              None \<Rightarrow> Inl InvalidCharacterError
            | Some vs \<Rightarrow> Inr (b64_bytes vs)))"

subsection \<open>Percent escapes and \<open>decodeURIComponent\<close>\<close>

text \<open>\<open>n.toString(16)\<close> for a natural \<open>n\<close>: lower-case hexadecimal digits.\<close>

definition hex_digit :: "nat \<Rightarrow> nat" where
  "hex_digit d = (if d < 10 then 48 + d else 87 + d)"

fun to_hex :: "nat \<Rightarrow> jsstring" where
  "to_hex n = (if n < 16 then [hex_digit n] else to_hex (n div 16) @ [hex_digit (n mod 16)])"

text \<open>The callback of \<open>map\<close>: \<open>'%' + ('00' + c.charCodeAt(0).toString(16)).slice(-2)\<close>.\<close>

definition percent_escape :: "nat \<Rightarrow> jsstring" where
  "percent_escape c = (let h = js ''00'' @ to_hex c in 37 # drop (length h - 2) h)"

definition hex_value :: "nat \<Rightarrow> nat option" where
  "hex_value c =
     (if 48 \<le> c \<and> c \<le> 57 then Some (c - 48)
      else if 97 \<le> c \<and> c \<le> 102 then Some (c - 87)
      else if 65 \<le> c \<and> c \<le> 70 then Some (c - 55)
      else None)"

text \<open>
  \<open>decodeURIComponent\<close>, in two passes. The first reads the escapes: a \<open>%\<close> must be
  followed by two hexadecimal digits and gives an octet, every other code unit stands for
  itself. The second decodes UTF-8: an octet below 128 is a code unit; a lead octet
  announces one to three continuation octets, which must follow as escapes and form the
  well-formed, shortest encoding of a code point that is no surrogate and at most
  \<open>0x10FFFF\<close>; the code point is appended in UTF-16. Everything else is a URIError.
\<close>

datatype uri_item = Lit nat | Octet nat

fun uri_items :: "jsstring \<Rightarrow> uri_item list option" where
  "uri_items [] = Some []"
| "uri_items (c # cs) =
     (if c = 37 then
        (case cs of
           h1 # h2 # rest \<Rightarrow>
             (case (hex_value h1, hex_value h2) of
                (Some a, Some b) \<Rightarrow>
                  (case uri_items rest of
                     None \<Rightarrow> None
                   | Some items \<Rightarrow> Some (Octet (a * 16 + b) # items))
              | _ \<Rightarrow> None)
         | _ \<Rightarrow> None)
      else (case uri_items cs of None \<Rightarrow> None | Some items \<Rightarrow> Some (Lit c # items)))"

definition continuation :: "nat \<Rightarrow> bool" where
  "continuation b \<longleftrightarrow> 128 \<le> b \<and> b < 192"

definition utf16_encode :: "nat \<Rightarrow> jsstring" where
  "utf16_encode v =
     (if v < 65536 then [v]
      else [55296 + (v - 65536) div 1024, 56320 + (v - 65536) mod 1024])"

fun utf8_items :: "uri_item list \<Rightarrow> jsstring option" where
  "utf8_items [] = Some []"
| "utf8_items (Lit c # items) = map_option (\<lambda>r. c # r) (utf8_items items)"
| "utf8_items (Octet b # items) =
     (if b < 128 then map_option (\<lambda>r. b # r) (utf8_items items)
      else if b < 192 then None
      else if b < 224 then
        (case items of
           Octet b1 # rest \<Rightarrow>
             (let v = (b - 192) * 64 + (b1 - 128) in
              if continuation b1 \<and> 128 \<le> v
              then map_option (\<lambda>r. utf16_encode v @ r) (utf8_items rest) else None)
         | _ \<Rightarrow> None)
      else if b < 240 then
        (case items of
           Octet b1 # Octet b2 # rest \<Rightarrow>
             (let v = ((b - 224) * 64 + (b1 - 128)) * 64 + (b2 - 128) in
              if continuation b1 \<and> continuation b2 \<and> 2048 \<le> v
                 \<and> \<not> (55296 \<le> v \<and> v < 57344)
              then map_option (\<lambda>r. utf16_encode v @ r) (utf8_items rest) else None)
         | _ \<Rightarrow> None)
      else if b < 248 then
        (case items of
           Octet b1 # Octet b2 # Octet b3 # rest \<Rightarrow>
             (let v = (((b - 240) * 64 + (b1 - 128)) * 64 + (b2 - 128)) * 64 + (b3 - 128) in
              if continuation b1 \<and> continuation b2 \<and> continuation b3
                 \<and> 65536 \<le> v \<and> v < 1114112
              then map_option (\<lambda>r. utf16_encode v @ r) (utf8_items rest) else None)
         | _ \<Rightarrow> None)
      else None)"

definition decodeURIComponent :: "jsstring \<Rightarrow> exn + jsstring" where
  "decodeURIComponent s =
     (case uri_items s of
        None \<Rightarrow> Inl URIError
      | Some items \<Rightarrow>
          (case utf8_items items of None \<Rightarrow> Inl URIError | Some r \<Rightarrow> Inr r))"

subsection \<open>Numbers\<close>

text \<open>
  Rounding a rational to the nearest double, ties to even: \<open>bit_length\<close> locates the
  binary exponent, the significand has 53 bits, the exponent is at least \<open>-1022\<close>
  (below that the spacing is that of the subnormals), and a result of \<open>2^1024\<close> or more
  is an infinity.
\<close>

fun bit_length :: "nat \<Rightarrow> nat" where
  "bit_length n = (if n = 0 then 0 else Suc (bit_length (n div 2)))"

definition pow2 :: "int \<Rightarrow> rat" where
  "pow2 i = (if 0 \<le> i then 2 ^ nat i else 1 / 2 ^ nat (- i))"

definition round_half_even :: "rat \<Rightarrow> int" where
  "round_half_even x =
     (let f = \<lfloor>x\<rfloor>; d = x - of_int f in
      if d < 1 / 2 then f
      else if 1 / 2 < d then f + 1
      else if even f then f else f + 1)"

definition binary_exponent :: "rat \<Rightarrow> int" where
  "binary_exponent a =
     (let (p, q) = quotient_of a;
          e0 = int (bit_length (nat p)) - int (bit_length (nat q))
      in if pow2 e0 \<le> a then e0 else e0 - 1)"

definition to_double :: "rat \<Rightarrow> jsnum" where
  "to_double x =
     (if x = 0 then Fin 0
      else
        (let a = \<bar>x\<bar>;
             e = max (binary_exponent a) (- 1022);
             ulp = pow2 (e - 52);
             r = of_int (round_half_even (a / ulp)) * ulp
         in if pow2 1024 \<le> r then (if 0 < x then PInf else NInf)
            else Fin (if 0 < x then r else - r)))"

text \<open>\<open>a * b\<close> and \<open>a < b\<close> on numbers.\<close>

fun js_mul :: "jsnum \<Rightarrow> jsnum \<Rightarrow> jsnum" where
  "js_mul (Fin a) (Fin b) = to_double (a * b)"
| "js_mul NaN y = NaN"
| "js_mul x NaN = NaN"
| "js_mul (Fin a) PInf = (if a = 0 then NaN else if 0 < a then PInf else NInf)"
| "js_mul (Fin a) NInf = (if a = 0 then NaN else if 0 < a then NInf else PInf)"
| "js_mul PInf (Fin b) = (if b = 0 then NaN else if 0 < b then PInf else NInf)"
| "js_mul NInf (Fin b) = (if b = 0 then NaN else if 0 < b then NInf else PInf)"
| "js_mul PInf PInf = PInf"
| "js_mul PInf NInf = NInf"
| "js_mul NInf PInf = NInf"
| "js_mul NInf NInf = PInf"

fun js_less :: "jsnum \<Rightarrow> jsnum \<Rightarrow> bool" where
  "js_less (Fin a) (Fin b) = (a < b)"
| "js_less NaN y = False"
| "js_less x NaN = False"
| "js_less x NInf = False"
| "js_less PInf y = False"
| "js_less NInf y = True"
| "js_less x PInf = True"

subsection \<open>Numeric literals\<close>

definition is_digit :: "nat \<Rightarrow> bool" where
  "is_digit c \<longleftrightarrow> 48 \<le> c \<and> c \<le> 57"

text \<open>The value of a string of digits in a base, as \<open>digit\<close> reads them.\<close>

definition digits_value :: "nat \<Rightarrow> (nat \<Rightarrow> nat option) \<Rightarrow> jsstring \<Rightarrow> nat" where
  "digits_value base digit ds = foldl (\<lambda>acc c. acc * base + the (digit c)) 0 ds"

definition dec_value :: "jsstring \<Rightarrow> nat" where
  "dec_value ds = digits_value 10 hex_value ds"

text \<open>
  An optional exponent part \<open>e\<close> or \<open>E\<close>, optional sign, digits: the exponent and the
  rest of the input; \<open>None\<close> when an \<open>e\<close> is not followed by digits.
\<close>

definition exponent_part :: "jsstring \<Rightarrow> (int \<times> jsstring) option" where
  "exponent_part cs =
     (case cs of
        [] \<Rightarrow> Some (0, [])
      | c # r \<Rightarrow>
          if c = 101 \<or> c = 69 then
            (let (neg, r1) = (case r of
                                [] \<Rightarrow> (False, r)
                              | s # r' \<Rightarrow> if s = 45 then (True, r')
                                          else if s = 43 then (False, r') else (False, r));
                 ds = takeWhile is_digit r1
             in if ds = [] then None
                else Some ((if neg then - int (dec_value ds) else int (dec_value ds)),
                           dropWhile is_digit r1))
          else Some (0, cs))"

text \<open>The rational \<open>i.f\<close> times ten to the \<open>e\<close>, for digit strings \<open>i\<close> and \<open>f\<close>.\<close>

definition decimal_value :: "jsstring \<Rightarrow> jsstring \<Rightarrow> int \<Rightarrow> rat" where
  "decimal_value i f e =
     (of_nat (dec_value i) + of_nat (dec_value f) / 10 ^ length f)
       * (if 0 \<le> e then 10 ^ nat e else 1 / 10 ^ nat (- e))"

subsection \<open>\<open>JSON.parse\<close>\<close>

text \<open>
  The JSON grammar, in two passes as well. The lexer turns the text into tokens; white
  space is tab, line feed, carriage return and space. A string runs to the closing quote,
  holds no code unit below \<open>0x20\<close> and the escapes \<open>\" \\ \/ \b \f \n \r \t \uXXXX\<close>.
  A number is an optional minus, an integer part without a leading zero, an optional
  fraction and an optional exponent; its value is rounded to a double.
\<close>

datatype token =
    LBrace | RBrace | LBracket | RBracket | Colon | Comma
  | TString jsstring | TNumber jsnum | TTrue | TFalse | TNull

fun hex4 :: "nat \<Rightarrow> nat \<Rightarrow> nat \<Rightarrow> nat \<Rightarrow> nat option" where
  "hex4 a b c d =
     (case (hex_value a, hex_value b, hex_value c, hex_value d) of
        (Some w, Some x, Some y, Some z) \<Rightarrow> Some (((w * 16 + x) * 16 + y) * 16 + z)
      | _ \<Rightarrow> None)"

definition escape_char :: "nat \<Rightarrow> nat option" where
  "escape_char c =
     (if c = 34 then Some 34 else if c = 92 then Some 92 else if c = 47 then Some 47
      else if c = 98 then Some 8 else if c = 102 then Some 12 else if c = 110 then Some 10
      else if c = 114 then Some 13 else if c = 116 then Some 9 else None)"

text \<open>
  One character of a string, escaped or not: the code unit it denotes and the input
  after it.
\<close>

definition lex_char :: "jsstring \<Rightarrow> (nat \<times> jsstring) option" where
  "lex_char cs =
     (case cs of
        [] \<Rightarrow> None
      | c # r \<Rightarrow>
          if c = 92 then
            (case r of
               [] \<Rightarrow> None
             | e # r1 \<Rightarrow>
                 if e = 117 then
                   (case r1 of
                      a # b # c' # d # r2 \<Rightarrow> map_option (\<lambda>u. (u, r2)) (hex4 a b c' d)
                    | _ \<Rightarrow> None)
                 else map_option (\<lambda>u. (u, r1)) (escape_char e))
          else if c < 32 then None
          else Some (c, r))"

lemma lex_char_shorter: "lex_char cs = Some (u, r) \<Longrightarrow> length r < length cs"
  by (auto simp: lex_char_def split: list.splits if_splits)

text \<open>After the opening quote: the string's code units and the input after the closing quote.\<close>

function lex_string :: "jsstring \<Rightarrow> (jsstring \<times> jsstring) option" where
  "lex_string [] = None"
| "lex_string (c # cs) =
     (if c = 34 then Some ([], cs)
      else (case lex_char (c # cs) of
              None \<Rightarrow> None
            | Some (u, r) \<Rightarrow> map_option (\<lambda>(s, rest). (u # s, rest)) (lex_string r)))"
  by pat_completeness auto
termination
  by (relation "measure length") (auto dest: lex_char_shorter)

text \<open>An optional fraction: a point and digits.\<close>

definition fraction_part :: "jsstring \<Rightarrow> (jsstring \<times> jsstring) option" where
  "fraction_part cs =
     (case cs of
        [] \<Rightarrow> Some ([], [])
      | c # r \<Rightarrow>
          if c = 46 then
            (let f = takeWhile is_digit r in
             if f = [] then None else Some (f, dropWhile is_digit r))
          else Some ([], cs))"

text \<open>At a minus or a digit: the number and the input after it.\<close>

definition lex_number :: "jsstring \<Rightarrow> (jsnum \<times> jsstring) option" where
  "lex_number cs =
     (let neg = (cs \<noteq> [] \<and> hd cs = 45);
          r0 = (if neg then tl cs else cs);
          i = takeWhile is_digit r0
      in if i = [] \<or> (hd i = 48 \<and> length i > 1) then None
         else
           (case fraction_part (dropWhile is_digit r0) of
              None \<Rightarrow> None
            | Some (f, r2) \<Rightarrow>
                (case exponent_part r2 of
                   None \<Rightarrow> None
                 | Some (e, r3) \<Rightarrow>
                     Some (to_double ((if neg then - 1 else 1) * decimal_value i f e), r3))))"
lemma lex_string_shorter: "lex_string cs = Some (s, r) \<Longrightarrow> length r < length cs"
proof (induction cs arbitrary: s rule: lex_string.induct)
  case 1
  then show ?case by simp
next
  case (2 c cs)
  show ?case
  proof (cases "c = 34")
    case True
    with "2.prems" show ?thesis by simp
  next
    case False
    with "2.prems" obtain u r1 s' where
      ch: "lex_char (c # cs) = Some (u, r1)" and st: "lex_string r1 = Some (s', r)"
      by (auto split: option.splits)
    from "2.IH" [OF False ch refl st] lex_char_shorter [OF ch] show ?thesis by simp
  qed
qed

lemma exponent_part_shorter: "exponent_part cs = Some (e, r) \<Longrightarrow> length r \<le> length cs"
  by (auto simp: exponent_part_def Let_def split: list.splits if_splits prod.splits
           intro: le_SucI length_dropWhile_le)

lemma fraction_part_shorter: "fraction_part cs = Some (f, r) \<Longrightarrow> length r \<le> length cs"
  by (auto simp: fraction_part_def Let_def split: list.splits if_splits
           intro: le_SucI length_dropWhile_le)

lemma dropWhile_shorter:
  assumes "takeWhile P xs \<noteq> []"
  shows "length (dropWhile P xs) < length xs"
proof -
  have "length (takeWhile P xs) + length (dropWhile P xs) = length xs"
    by (metis length_append takeWhile_dropWhile_id)
  moreover from assms have "0 < length (takeWhile P xs)" by simp
  ultimately show ?thesis by linarith
qed

lemma lex_number_shorter:
  assumes "lex_number cs = Some (n, r)"
  shows "length r < length cs"
proof -
  define r0 where "r0 = (if cs \<noteq> [] \<and> hd cs = 45 then tl cs else cs)"
  have r0: "length r0 \<le> length cs" by (simp add: r0_def)
  from assms obtain f r2 e where
    i: "takeWhile is_digit r0 \<noteq> []"
    and fr: "fraction_part (dropWhile is_digit r0) = Some (f, r2)"
    and ex: "exponent_part r2 = Some (e, r)"
    by (auto simp: lex_number_def Let_def r0_def split: if_splits option.splits)
  from dropWhile_shorter [OF i] fraction_part_shorter [OF fr] exponent_part_shorter [OF ex] r0
  show ?thesis by linarith
qed

function json_tokens :: "jsstring \<Rightarrow> token list option" where
  "json_tokens [] = Some []"
| "json_tokens (c # cs) =
     (if c = 9 \<or> c = 10 \<or> c = 13 \<or> c = 32 then json_tokens cs
      else if c = 123 then map_option (Cons LBrace) (json_tokens cs)
      else if c = 125 then map_option (Cons RBrace) (json_tokens cs)
      else if c = 91 then map_option (Cons LBracket) (json_tokens cs)
      else if c = 93 then map_option (Cons RBracket) (json_tokens cs)
      else if c = 58 then map_option (Cons Colon) (json_tokens cs)
      else if c = 44 then map_option (Cons Comma) (json_tokens cs)
      else if c = 34 then
        (case lex_string cs of
           None \<Rightarrow> None
         | Some (s, r) \<Rightarrow> map_option (Cons (TString s)) (json_tokens r))
      else if c = 45 \<or> is_digit c then
        (case lex_number (c # cs) of
           None \<Rightarrow> None
         | Some (n, r) \<Rightarrow> map_option (Cons (TNumber n)) (json_tokens r))
      else if take 4 (c # cs) = js ''true'' then map_option (Cons TTrue) (json_tokens (drop 3 cs))
      else if take 5 (c # cs) = js ''false'' then map_option (Cons TFalse) (json_tokens (drop 4 cs))
      else if take 4 (c # cs) = js ''null'' then map_option (Cons TNull) (json_tokens (drop 3 cs))
      else None)"
  by pat_completeness auto
termination
proof (relation "measure length")
  fix c cs x2 x y
  assume "lex_string cs = Some x2" "(x, y) = x2"
  then show "(y, c # cs) \<in> measure length"
    using lex_string_shorter [of cs x y] by simp
next
  fix c cs x2 x y
  assume "lex_number (c # cs) = Some x2" "(x, y) = x2"
  then show "(y, c # cs) \<in> measure length"
    using lex_number_shorter [of "c # cs" x y] by simp
qed simp_all

text \<open>
  The parser runs over the tokens with a stack of the arrays and objects that are open.
  A member is set on the object with \<open>set_prop\<close>: a key that is already there
  takes the new value, so the last of duplicate keys wins.
\<close>

datatype frame =
    InArray "jsval list"
  | InObject "(jsstring \<times> jsval) list"
  | InMember "(jsstring \<times> jsval) list" jsstring

datatype expect =
    WantValue | WantValueOrClose | WantKeyOrClose | WantKey | WantColon | WantCommaOrClose
  | Complete jsval

fun push_value :: "jsval \<Rightarrow> frame list \<Rightarrow> (frame list \<times> expect) option" where
  "push_value v [] = Some ([], Complete v)"
| "push_value v (InArray vs # st) = Some (InArray (vs @ [v]) # st, WantCommaOrClose)"
| "push_value v (InMember kvs k # st) =
     Some (InObject (set_prop k v kvs) # st, WantCommaOrClose)"
| "push_value v (InObject kvs # st) = None"

fun start_value :: "frame list \<Rightarrow> token \<Rightarrow> (frame list \<times> expect) option" where
  "start_value st LBracket = Some (InArray [] # st, WantValueOrClose)"
| "start_value st LBrace = Some (InObject [] # st, WantKeyOrClose)"
| "start_value st (TString s) = push_value (JStr s) st"
| "start_value st (TNumber n) = push_value (JNum n) st"
| "start_value st TTrue = push_value (JBool True) st"
| "start_value st TFalse = push_value (JBool False) st"
| "start_value st TNull = push_value JNull st"
| "start_value st t = None"

fun close_array :: "frame list \<Rightarrow> (frame list \<times> expect) option" where
  "close_array (InArray vs # st) = push_value (JArr vs) st"
| "close_array st = None"

fun close_object :: "frame list \<Rightarrow> (frame list \<times> expect) option" where
  "close_object (InObject kvs # st) = push_value (JObj kvs) st"
| "close_object st = None"

fun start_member :: "frame list \<Rightarrow> token \<Rightarrow> (frame list \<times> expect) option" where
  "start_member (InObject kvs # st) (TString k) = Some (InMember kvs k # st, WantColon)"
| "start_member st t = None"

fun parse_step :: "frame list \<times> expect \<Rightarrow> token \<Rightarrow> (frame list \<times> expect) option" where
  "parse_step (st, WantValue) t = start_value st t"
| "parse_step (st, WantValueOrClose) t =
     (if t = RBracket then close_array st else start_value st t)"
| "parse_step (st, WantKeyOrClose) t =
     (if t = RBrace then close_object st else start_member st t)"
| "parse_step (st, WantKey) t = start_member st t"
| "parse_step (st, WantColon) t = (if t = Colon then Some (st, WantValue) else None)"
| "parse_step (st, WantCommaOrClose) t =
     (case st of
        InArray vs # st' \<Rightarrow>
          if t = Comma then Some (st, WantValue)
          else if t = RBracket then close_array st else None
      | InObject kvs # st' \<Rightarrow>
          if t = Comma then Some (st, WantKey)
          else if t = RBrace then close_object st else None
      | _ \<Rightarrow> None)"
| "parse_step (st, Complete v) t = None"

fun parse_tokens :: "frame list \<times> expect \<Rightarrow> token list \<Rightarrow> (frame list \<times> expect) option" where
  "parse_tokens cfg [] = Some cfg"
| "parse_tokens cfg (t # ts) =
     (case parse_step cfg t of None \<Rightarrow> None | Some cfg' \<Rightarrow> parse_tokens cfg' ts)"

definition JSON_parse :: "jsstring \<Rightarrow> exn + jsval" where
  "JSON_parse text =
     (case json_tokens text of
        None \<Rightarrow> Inl SyntaxError
      | Some ts \<Rightarrow>
          (case parse_tokens ([], WantValue) ts of
             Some ([], Complete v) \<Rightarrow> Inr v
           | _ \<Rightarrow> Inl SyntaxError))"
subsection \<open>ToString\<close>

text \<open>
  Number::toString in base ten. For a positive number \<open>x\<close> it takes integers \<open>n\<close>,
  \<open>k\<close> and \<open>s\<close> with \<open>k\<close> digits in \<open>s\<close> such that \<open>s\<close> times ten to the
  \<open>n - k\<close> is a decimal that rounds to \<open>x\<close>, with \<open>k\<close> as small as possible and,
  for that \<open>k\<close>, \<open>s\<close> as close to \<open>x\<close> as possible (the even one of two equally
  close). \<open>decimal_exponent\<close> is the \<open>n\<close> with \<open>10^(n-1) \<le> x < 10^n\<close>. With
  \<open>k\<close> digits the decimals next to \<open>x\<close> are the one below and the one above it, so
  \<open>digits_of_length\<close> needs to try only these two; seventeen digits always suffice
  for a double.
\<close>

definition pow10 :: "int \<Rightarrow> rat" where
  "pow10 i = (if 0 \<le> i then 10 ^ nat i else 1 / 10 ^ nat (- i))"

fun dec_length :: "nat \<Rightarrow> nat" where
  "dec_length n = (if n = 0 then 0 else Suc (dec_length (n div 10)))"

definition decimal_exponent :: "rat \<Rightarrow> int" where
  "decimal_exponent a =
     (let (p, q) = quotient_of a;
          d = int (dec_length (nat p)) - int (dec_length (nat q))
      in if a < pow10 d then d else d + 1)"

definition digits_of_length :: "rat \<Rightarrow> int \<Rightarrow> nat \<Rightarrow> int option" where
  "digits_of_length x n k =
     (let unit = pow10 (n - int k);
          lo = \<lfloor>x / unit\<rfloor>;
          hi = lo + 1;
          lo_ok = (to_double (of_int lo * unit) = Fin x);
          hi_ok = (to_double (of_int hi * unit) = Fin x);
          below = x - of_int lo * unit;
          above = of_int hi * unit - x
      in if lo_ok \<and> hi_ok then
           Some (if below < above then lo else if above < below then hi
                 else if even lo then lo else hi)
         else if lo_ok then Some lo
         else if hi_ok then Some hi
         else None)"

definition shortest_digits :: "rat \<Rightarrow> int \<Rightarrow> (int \<times> nat)" where
  "shortest_digits x n =
     (case List.find (\<lambda>k. digits_of_length x n k \<noteq> None) [1..<18] of
        Some k \<Rightarrow> (case digits_of_length x n k of Some s \<Rightarrow> (s, k) | None \<Rightarrow> (0, k))
      | None \<Rightarrow> (round_half_even (x / pow10 (n - 17)), 17))"

text \<open>The exponent of the scientific form: \<open>e+21\<close>, \<open>e-7\<close>.\<close>

definition exponent_suffix :: "int \<Rightarrow> jsstring" where
  "exponent_suffix e = 101 # (if 0 \<le> e then 43 else 45) # dec_digits (nat \<bar>e\<bar>)"

text \<open>
  The text for the digits \<open>ds\<close> of \<open>s\<close> and the exponent \<open>n\<close>: an integer with its
  zeros, a decimal point inside the digits, \<open>0.\<close> with up to six zeros before the
  digits, and otherwise the scientific form.
\<close>

definition format_digits :: "jsstring \<Rightarrow> int \<Rightarrow> jsstring" where
  "format_digits ds n =
     (let k = int (length ds) in
      if k \<le> n \<and> n \<le> 21 then ds @ replicate (nat (n - k)) 48
      else if 0 < n \<and> n \<le> 21 then take (nat n) ds @ [46] @ drop (nat n) ds
      else if - 6 < n \<and> n \<le> 0 then [48, 46] @ replicate (nat (- n)) 48 @ ds
      else if k = 1 then ds @ exponent_suffix (n - 1)
      else [hd ds, 46] @ tl ds @ exponent_suffix (n - 1))"

text \<open>When the decimal above \<open>x\<close> is the next power of ten, its one digit is \<open>1\<close>.\<close>

definition positive_to_string :: "rat \<Rightarrow> jsstring" where
  "positive_to_string x =
     (let n = decimal_exponent x;
          (s, k) = shortest_digits x n
      in if s = 10 ^ k then format_digits [49] (n + 1)
         else format_digits (dec_digits (nat s)) n)"

fun number_to_string :: "jsnum \<Rightarrow> jsstring" where
  "number_to_string NaN = js ''NaN''"
| "number_to_string PInf = js ''Infinity''"
| "number_to_string NInf = js ''-Infinity''"
| "number_to_string (Fin x) =
     (if x = 0 then js ''0''
      else if x < 0 then 45 # positive_to_string (- x)
      else positive_to_string x)"

text \<open>
  ToString. The values are data: what \<open>JSON.parse\<close> builds and what the sources build
  from it, so no member of an object or array is callable. An array is converted by
  \<open>Array.prototype.toString\<close>, which joins the strings of its elements with commas,
  \<open>null\<close> and \<open>undefined\<close> giving the empty string. An object is converted by
  \<open>Object.prototype.toString\<close>, unless it has an own member \<open>toString\<close>: that
  member shadows the inherited method, it is not callable, \<open>valueOf\<close> gives no
  primitive either, and the conversion throws a TypeError. A built-in function gives
  its source text, which names it and hides the body.
\<close>

fun to_string :: "jsval \<Rightarrow> exn + jsstring"
  and join_elements :: "jsval list \<Rightarrow> exn + jsstring" where
  "to_string JUndefined = Inr (js ''undefined'')"
| "to_string JNull = Inr (js ''null'')"
| "to_string (JBool b) = Inr (if b then js ''true'' else js ''false'')"
| "to_string (JNum n) = Inr (number_to_string n)"
| "to_string (JStr s) = Inr s"
| "to_string (JArr xs) = join_elements xs"
| "to_string (JObj kvs) =
     (if map_of kvs (js ''toString'') \<noteq> None then Inl TypeError
      else Inr (js ''[object Object]''))"
| "to_string (JFunction f) =
     Inr (js ''function '' @ last (split_on 46 f) @ js ''() { [native code] }'')"
| "join_elements [] = Inr []"
| "join_elements (x # xs) =
     (case (if x = JUndefined \<or> x = JNull then Inr [] else to_string x) of
        Inl e \<Rightarrow> Inl e
      | Inr s \<Rightarrow>
          if xs = [] then Inr s
          else (case join_elements xs of
                  Inl e \<Rightarrow> Inl e
                | Inr r \<Rightarrow> Inr (s @ [44] @ r)))"

subsection \<open>ToNumber\<close>

text \<open>
  White space and line terminators, as \<open>trim\<close> and the conversion of a string to a
  number strip them.
\<close>

definition js_whitespace :: "nat \<Rightarrow> bool" where
  "js_whitespace c \<longleftrightarrow>
     (9 \<le> c \<and> c \<le> 13) \<or> c = 32 \<or> c = 160 \<or> c = 5760 \<or> (8192 \<le> c \<and> c \<le> 8202)
     \<or> c = 8232 \<or> c = 8233 \<or> c = 8239 \<or> c = 8287 \<or> c = 12288 \<or> c = 65279"

definition trim :: "jsstring \<Rightarrow> jsstring" where
  "trim s = rev (dropWhile js_whitespace (rev (dropWhile js_whitespace s)))"

definition digit_below :: "nat \<Rightarrow> nat \<Rightarrow> nat option" where
  "digit_below base c =
     (case hex_value c of
        None \<Rightarrow> None
      | Some d \<Rightarrow> if d < base then Some d else None)"

text \<open>\<open>0x\<close>, \<open>0o\<close> and \<open>0b\<close> literals: the base after a leading zero.\<close>

definition radix_prefix :: "nat \<Rightarrow> nat option" where
  "radix_prefix c =
     (if c = 120 \<or> c = 88 then Some 16
      else if c = 111 \<or> c = 79 then Some 8
      else if c = 98 \<or> c = 66 then Some 2
      else None)"

text \<open>
  A signed decimal literal: \<open>Infinity\<close>, or digits with an optional fraction and
  exponent, where the digits before or after the point may be missing, but not both.
\<close>

definition decimal_literal :: "jsstring \<Rightarrow> jsnum" where
  "decimal_literal t =
     (let neg = (t \<noteq> [] \<and> hd t = 45);
          r0 = (if t \<noteq> [] \<and> (hd t = 45 \<or> hd t = 43) then tl t else t)
      in if r0 = js ''Infinity'' then (if neg then NInf else PInf)
         else
           (let i = takeWhile is_digit r0;
                r1 = dropWhile is_digit r0;
                f = (case r1 of [] \<Rightarrow> []
                     | c # r \<Rightarrow> if c = 46 then takeWhile is_digit r else []);
                r2 = (case r1 of [] \<Rightarrow> []
                      | c # r \<Rightarrow> if c = 46 then dropWhile is_digit r else r1)
            in if i = [] \<and> f = [] then NaN
               else
                 (case exponent_part r2 of
                    None \<Rightarrow> NaN
                  | Some (e, r3) \<Rightarrow>
                      if r3 \<noteq> [] then NaN
                      else to_double ((if neg then - 1 else 1) * decimal_value i f e))))"

definition string_to_number :: "jsstring \<Rightarrow> jsnum" where
  "string_to_number s =
     (let t = trim s in
      case t of
        [] \<Rightarrow> Fin 0
      | c # r \<Rightarrow>
          (case (if c = 48 \<and> r \<noteq> [] then radix_prefix (hd r) else None) of
             Some base \<Rightarrow>
               if tl r \<noteq> [] \<and> list_all (\<lambda>d. digit_below base d \<noteq> None) (tl r)
               then to_double (of_nat (digits_value base (digit_below base) (tl r)))
               else NaN
           | None \<Rightarrow> decimal_literal t))"

text \<open>
  ToNumber. An array, an object or a function is first made a primitive; \<open>valueOf\<close>
  gives none for them, so the primitive is their string, which is then read as a number.
  The conversion throws when that of the value to a string throws.
\<close>

fun to_number :: "jsval \<Rightarrow> exn + jsnum" where
  "to_number JUndefined = Inr NaN"
| "to_number JNull = Inr (Fin 0)"
| "to_number (JBool b) = Inr (if b then Fin 1 else Fin 0)"
| "to_number (JNum n) = Inr n"
| "to_number (JStr s) = Inr (string_to_number s)"
| "to_number v = (case to_string v of Inl e \<Rightarrow> Inl e | Inr s \<Rightarrow> Inr (string_to_number s))"

text \<open>
  \<open>new Error(v)\<close> takes \<open>v\<close> converted to a string as the message, and the empty
  message of the prototype when \<open>v\<close> is \<open>undefined\<close>; the conversion can throw,
  and then no \<open>Error\<close> is made.
\<close>

definition new_Error :: "jsval \<Rightarrow> exn + exn" where
  "new_Error v =
     (if v = JUndefined then Inr (Error [])
      else (case to_string v of Inl e \<Rightarrow> Inl e | Inr m \<Rightarrow> Inr (Error m)))"

section \<open>Token management and the session inspector (auth.js)\<close>

definition getToken :: "browser \<Rightarrow> jsstring option" where
  "getToken w = token_slot w"

definition setToken :: "jsstring \<Rightarrow> browser \<Rightarrow> browser" where
  "setToken token w = w\<lparr>token_slot := Some token\<rparr>"

definition clearToken :: "browser \<Rightarrow> browser" where
  "clearToken w = w\<lparr>token_slot := None\<rparr>"

text \<open>
  \<open>parseJwt\<close>. \<open>token.split('.')[1]\<close> is \<open>undefined\<close> when the token has no dot, and
  calling \<open>replace\<close> on it throws a TypeError.
\<close>

definition parseJwt :: "jsstring \<Rightarrow> exn + jsval" where
  "parseJwt token =
     (let parts = split_on 46 token in
      if length parts < 2 then Inl TypeError
      else
        (let base64Url = parts ! 1;
             base64 = replace_all 95 47 (replace_all 45 43 base64Url)
         in case atob base64 of
              Inl e \<Rightarrow> Inl e
            | Inr bytes \<Rightarrow>
                (case decodeURIComponent (concat (map percent_escape bytes)) of
                   Inl e \<Rightarrow> Inl e
                 | Inr jsonPayload \<Rightarrow> JSON_parse jsonPayload)))"

text \<open>
  \<open>!token\<close> holds for \<open>null\<close> (nothing stored) and for the empty string. The
  \<open>try\<close> block turns every exception into \<open>false\<close>.
\<close>

definition isAuthenticated :: "browser \<Rightarrow> bool" where
  "isAuthenticated w =
     (case getToken w of
        None \<Rightarrow> False
      | Some token \<Rightarrow>
          if token = [] then False
          else
            (case parseJwt token of
               Inl e \<Rightarrow> False
             | Inr payload \<Rightarrow>
                 (case get_prop payload (js ''exp'') of
                    Inl e \<Rightarrow> False
                  | Inr ex \<Rightarrow>
                      (case to_number ex of
                         Inl e \<Rightarrow> False
                       | Inr n \<Rightarrow>
                           (let expiry = js_mul n (Fin 1000)
                            in js_less (Fin (of_int (clock w))) expiry)))))"

definition getUserFromToken :: "browser \<Rightarrow> session option" where
  "getUserFromToken w =
     (case getToken w of
        None \<Rightarrow> None
      | Some token \<Rightarrow>
          if token = [] then None
          else
            (case parseJwt token of
               Inl e \<Rightarrow> None
             | Inr payload \<Rightarrow>
                 (case get_prop payload (js ''sub'') of
                    Inl e \<Rightarrow> None
                  | Inr s \<Rightarrow>
                 (case get_prop payload (js ''email'') of
                    Inl e \<Rightarrow> None
                  | Inr m \<Rightarrow>
                 (case get_prop payload (js ''is_onboarded'') of
                    Inl e \<Rightarrow> None
                  | Inr ob \<Rightarrow>
                      Some \<lparr>user_id = s, email = m,
                            is_onboarded = js_or ob (JBool False)\<rparr>)))))"

definition checkAuthAndRedirect :: "browser \<Rightarrow> browser" where
  "checkAuthAndRedirect w = redirectBasedOnStatus (getUserFromToken w) w"

text \<open>The defining equations that evaluate the decoding of a concrete token.\<close>

lemmas js_eval =
  js_def replace_all_def atob_def strip_padding_def b64_value_def ascii_whitespace_def
  percent_escape_def hex_digit_def hex_value_def decodeURIComponent_def continuation_def
  utf16_encode_def JSON_parse_def lex_char_def escape_char_def lex_number_def is_digit_def
  fraction_part_def exponent_part_def decimal_value_def dec_value_def digits_value_def
  parseJwt_def getToken_def isAuthenticated_def getUserFromToken_def
  checkAuthAndRedirect_def redirectBasedOnStatus_def get_prop_def read_prop_def js_or_def
  set_prop_def index_of_def Let_def

subsection \<open>Example credentials\<close>

lemmas num_eval = to_double_def binary_exponent_def pow2_def round_half_even_def

definition expired_token :: jsstring where
  "expired_token = js ''h.eyJzdWIiOiJ1MSIsImVtYWlsIjoiYUBiLmNvbSIsImlzX29uYm9hcmRlZCI6dHJ1ZSwiZXhwIjoxfQ.s''"

definition two_segment_token :: jsstring where
  "two_segment_token = js ''x.eyJleHAiOjk5OTk5OTk5OTl9''"

definition string_exp_token :: jsstring where
  "string_exp_token = js ''x.eyJleHAiOiI5OTk5OTk5OTk5In0.y''"

definition no_exp_token :: jsstring where
  "no_exp_token = js ''h.eyJzdWIiOiJ1MSIsImVtYWlsIjoiYUBiLmNvbSIsImlzX29uYm9hcmRlZCI6dHJ1ZX0.s''"

definition valid_token :: jsstring where
  "valid_token = js ''h.eyJzdWIiOiJab8OrIiwiZW1haWwiOiLml6XmnKxAYi5jb20iLCJpc19vbmJvYXJkZWQiOnRydWUsImV4cCI6OTk5OTk5OTk5OX0.s''"

definition browser_with :: "jsstring \<Rightarrow> jsstring \<Rightarrow> browser" where
  "browser_with token path =
     \<lparr>token_slot = Some token, pathname = path, href = None, clock = 1700000000000\<rparr>"

section \<open>The auth gateway (auth.js)\<close>

text \<open>
  What \<open>await fetch(...)\<close> gives: the promise rejects (no response at all, a TypeError),
  or there is a response with a status and a body. The body is the text that
  \<open>response.json()\<close> parses; \<open>response.ok\<close> is true for the statuses 200 to 299.
  The request itself is sent as the sources build it; what comes back is a parameter of
  every function that awaits a \<open>fetch\<close>.
\<close>

record response =
  status :: nat
  body :: jsstring

datatype fetch_result = Rejected | Responded response

definition ok :: "response \<Rightarrow> bool" where
  "ok r \<longleftrightarrow> 200 \<le> status r \<and> status r \<le> 299"

definition response_json :: "response \<Rightarrow> exn + jsval" where
  "response_json r = JSON_parse (body r)"

text \<open>
  On a non-success response the three calls read the body as JSON and
  \<open>throw new Error(error.detail || fallback)\<close>: what leaves the function is the
  \<open>Error\<close>, or the exception of \<open>response.json()\<close>, of reading \<open>detail\<close> or of
  making the \<open>Error\<close>.
\<close>

definition signup :: "fetch_result \<Rightarrow> exn + jsval" where
  "signup net =
     (case net of
        Rejected \<Rightarrow> Inl TypeError
      | Responded response \<Rightarrow>
          if \<not> ok response then
            (case response_json response of
               Inl e \<Rightarrow> Inl e
             | Inr error \<Rightarrow>
                 (case get_prop error (js ''detail'') of
                    Inl e \<Rightarrow> Inl e
                  | Inr detail \<Rightarrow>
                      (case new_Error (js_or detail (JStr (js ''Signup failed''))) of
                         Inl e \<Rightarrow> Inl e
                       | Inr thrown \<Rightarrow> Inl thrown)))
          else response_json response)"

definition login :: "fetch_result \<Rightarrow> exn + jsval" where
  "login net =
     (case net of
        Rejected \<Rightarrow> Inl TypeError
      | Responded response \<Rightarrow>
          if \<not> ok response then
            (case response_json response of
               Inl e \<Rightarrow> Inl e
             | Inr error \<Rightarrow>
                 (case get_prop error (js ''detail'') of
                    Inl e \<Rightarrow> Inl e
                  | Inr detail \<Rightarrow>
                      (case new_Error (js_or detail (JStr (js ''Login failed''))) of
                         Inl e \<Rightarrow> Inl e
                       | Inr thrown \<Rightarrow> Inl thrown)))
          else response_json response)"

definition googleAuth :: "fetch_result \<Rightarrow> exn + jsval" where
  "googleAuth net =
     (case net of
        Rejected \<Rightarrow> Inl TypeError
      | Responded response \<Rightarrow>
          if \<not> ok response then
            (case response_json response of
               Inl e \<Rightarrow> Inl e
             | Inr error \<Rightarrow>
                 (case get_prop error (js ''detail'') of
                    Inl e \<Rightarrow> Inl e
                  | Inr detail \<Rightarrow>
                      (case new_Error (js_or detail (JStr (js ''Google authentication failed''))) of
                         Inl e \<Rightarrow> Inl e
                       | Inr thrown \<Rightarrow> Inl thrown)))
          else response_json response)"

text \<open>
  \<open>getCurrentUser\<close> returns \<open>null\<close> without a request when no token is stored;
  its result comes with the browser state, since a 401 clears the token.
\<close>

definition getCurrentUser :: "fetch_result \<Rightarrow> browser \<Rightarrow> (exn + jsval) \<times> browser" where
  "getCurrentUser net w =
     (case getToken w of
        None \<Rightarrow> (Inr JNull, w)
      | Some token \<Rightarrow>
          if token = [] then (Inr JNull, w)
          else
            (case net of
               Rejected \<Rightarrow> (Inl TypeError, w)
             | Responded response \<Rightarrow>
                 if \<not> ok response then
                   (if status response = 401 then (Inr JNull, clearToken w)
                    else (Inl (Error (js ''Failed to get user info'')), w))
                 else (response_json response, w)))"

section \<open>The onboarding conversation (app.js)\<close>

text \<open>
  The page state that the conversation reads and writes: the module variables
  \<open>sessionId\<close>, \<open>profile\<close> and \<open>currentUser\<close>, the text of the message input, the
  transcript (the children of \<open>chatContainer\<close>, each a message text with its role, in
  the order they were appended), whether the send button is disabled, the token last
  stored by \<open>setToken\<close>, and whether the profile modal is shown.
\<close>

record chat_page =
  sessionId :: jsval
  profile :: jsval
  currentUser :: "session option"
  messageInput :: jsstring
  transcript :: "(jsval \<times> jsstring) list"
  sendDisabled :: bool
  savedToken :: "jsstring option"
  profileShown :: bool

text \<open>
  \<open>addMessage\<close> appends a bubble that shows its text. The template literal in it
  converts the text to a string, which is the text itself for the strings that the
  callers pass: the literals, the trimmed input and, in \<open>handleSendMessage\<close>,
  \<open>data.message\<close> once converted; that conversion can throw, and then nothing is
  appended.
\<close>

definition addMessage :: "jsval \<Rightarrow> jsstring \<Rightarrow> chat_page \<Rightarrow> chat_page" where
  "addMessage text role p = p\<lparr>transcript := transcript p @ [(text, role)]\<rparr>"

definition setLoading :: "bool \<Rightarrow> chat_page \<Rightarrow> chat_page" where
  "setLoading isLoading p = p\<lparr>sendDisabled := isLoading\<rparr>"

text \<open>
  \<open>finalizeProfile\<close>. The two versions of the page render the profile differently;
  whether \<open>showProfileModal\<close> throws on a profile is the parameter \<open>modal_throws\<close>.
  \<open>setToken\<close> stores its argument converted to a string. Every exception ends in the
  \<open>catch\<close> block.
\<close>

definition finalize_failed :: "chat_page \<Rightarrow> chat_page" where
  "finalize_failed p =
     addMessage (JStr (js ''Something went wrong creating your profile.'')) (js ''assistant'') p"

definition finalizeProfile :: "(jsval \<Rightarrow> bool) \<Rightarrow> fetch_result \<Rightarrow> chat_page \<Rightarrow> chat_page" where
  "finalizeProfile modal_throws net p0 =
     (let p = addMessage (JStr (js ''Creating your profile...'')) (js ''assistant'') p0 in
      case net of
        Rejected \<Rightarrow> finalize_failed p
      | Responded response \<Rightarrow>
          (case response_json response of
             Inl e \<Rightarrow> finalize_failed p
           | Inr data \<Rightarrow>
               (case get_prop data (js ''success'') of
                  Inl e \<Rightarrow> finalize_failed p
                | Inr success \<Rightarrow>
                    if truthy success then
                      (let p1 = p\<lparr>profile := read_prop data (js ''profile'')\<rparr>;
                           access_token = read_prop data (js ''access_token'')
                       in case (if truthy access_token then
                                  (case to_string access_token of
                                     Inl e \<Rightarrow> Inl e
                                   | Inr stored \<Rightarrow> Inr (p1\<lparr>savedToken := Some stored\<rparr>))
                                else Inr p1) of
                            Inl e \<Rightarrow> finalize_failed p1
                          | Inr p2 \<Rightarrow>
                              if modal_throws (profile p2) then finalize_failed p2
                              else p2\<lparr>profileShown := True\<rparr>)
                    else p)))"

text \<open>
  \<open>handleSendMessage\<close>, in the two parts the \<open>await\<close> cuts it into. The first runs
  to the point where the request is out and gives the page as it stands while the
  network call is pending, with the text that was sent, or nothing when the handler
  returned at once. The second runs when the call has settled: \<open>net\<close> is the outcome of
  the message request, \<open>net'\<close> that of the finalize request.
\<close>

definition handleSendMessage_start :: "chat_page \<Rightarrow> chat_page \<times> jsstring option" where
  "handleSendMessage_start p =
     (let text = trim (messageInput p) in
      if text = [] \<or> \<not> truthy (sessionId p) then (p, None)
      else
        (setLoading True ((addMessage (JStr text) (js ''user'') p)\<lparr>messageInput := []\<rparr>),
         Some text))"

definition send_failed :: "chat_page \<Rightarrow> chat_page" where
  "send_failed p =
     addMessage (JStr (js ''Error: Could not send message. Please try again.''))
       (js ''assistant'') p"

definition handleSendMessage_settled ::
  "(jsval \<Rightarrow> bool) \<Rightarrow> fetch_result \<Rightarrow> fetch_result \<Rightarrow> chat_page \<Rightarrow> chat_page" where
  "handleSendMessage_settled modal_throws net net' p =
     setLoading False
       (case net of
          Rejected \<Rightarrow> send_failed p
        | Responded response \<Rightarrow>
            (case response_json response of
               Inl e \<Rightarrow> send_failed p
             | Inr data \<Rightarrow>
                 (case get_prop data (js ''message'') of
                    Inl e \<Rightarrow> send_failed p
                  | Inr message \<Rightarrow>
                      (case to_string message of
                         Inl e \<Rightarrow> send_failed p
                       | Inr shown \<Rightarrow>
                           (let p1 = addMessage (JStr shown) (js ''assistant'') p in
                            if truthy (read_prop data (js ''is_complete''))
                            then finalizeProfile modal_throws net' p1
                            else p1)))))"

definition handleSendMessage ::
  "(jsval \<Rightarrow> bool) \<Rightarrow> fetch_result \<Rightarrow> fetch_result \<Rightarrow> chat_page \<Rightarrow> chat_page" where
  "handleSendMessage modal_throws net net' p =
     (case handleSendMessage_start p of
        (p', None) \<Rightarrow> p'
      | (p', Some text) \<Rightarrow> handleSendMessage_settled modal_throws net net' p')"

subsection \<open>Example page\<close>

definition example_chat :: chat_page where
  "example_chat =
     \<lparr>sessionId = JStr (js ''s-1''), profile = JNull, currentUser = None,
      messageInput = js '' hello '', transcript = [(JStr (js ''Welcome''), js ''assistant'')],
      sendDisabled = False, savedToken = None, profileShown = False\<rparr>"

definition taken_body :: jsstring where
  \<open>taken_body = js ''{"detail":"Email already registered"}''\<close>

text \<open>
  A body whose \<open>detail\<close> is an object with a member \<open>toString\<close>, and the body of a
  validation error, whose \<open>detail\<close> is a list.
\<close>

definition shadowed_body :: jsstring where
  \<open>shadowed_body = js ''{"detail":{"toString":1}}''\<close>

definition invalid_body :: jsstring where
  \<open>invalid_body = js ''{"detail":[{"msg":"field required"},"x"]}''\<close>


text \<open>The parser state holds no \<open>undefined\<close> result.\<close>

definition defined_result :: "frame list \<times> expect \<Rightarrow> bool" where
  "defined_result cfg = (case snd cfg of Complete v \<Rightarrow> v \<noteq> JUndefined | _ \<Rightarrow> True)"

section \<open>Issuing a token\<close>

text \<open>
  Modelled from the spec: the backend that issues the credential is not among the
  sources. The specification describes the credential as a three-part dot-delimited
  token whose middle part is the standard base64url encoding of the claims
  \<open>{sub, email, is_onboarded}\<close>: here the claims are written as JSON text, the text is
  encoded in UTF-8, and the bytes in base64url without padding. Text is a list of Unicode
  scalar values.
\<close>

definition scalar_value :: "nat \<Rightarrow> bool" where
  "scalar_value c \<longleftrightarrow> c < 55296 \<or> (57344 \<le> c \<and> c < 1114112)"

definition utf8_encode :: "nat \<Rightarrow> nat list" where
  "utf8_encode c =
     (if c < 128 then [c]
      else if c < 2048 then [192 + c div 64, 128 + c mod 64]
      else if c < 65536 then [224 + c div 4096, 128 + (c div 64) mod 64, 128 + c mod 64]
      else [240 + c div 262144, 128 + (c div 4096) mod 64, 128 + (c div 64) mod 64,
            128 + c mod 64])"

definition utf8 :: "nat list \<Rightarrow> nat list" where
  "utf8 text = concat (map utf8_encode text)"

text \<open>The same text as a JavaScript string.\<close>

definition utf16 :: "nat list \<Rightarrow> jsstring" where
  "utf16 text = concat (map utf16_encode text)"

definition b64_char :: "nat \<Rightarrow> nat" where
  "b64_char v =
     (if v < 26 then 65 + v else if v < 52 then 71 + v else if v < 62 then v - 4
      else if v = 62 then 43 else 47)"

definition b64url_char :: "nat \<Rightarrow> nat" where
  "b64url_char v = (if v = 62 then 45 else if v = 63 then 95 else b64_char v)"

fun sextets :: "nat list \<Rightarrow> nat list" where
  "sextets (a # b # c # rest) =
     [a div 4, (a mod 4) * 16 + b div 16, (b mod 16) * 4 + c div 64, c mod 64]
       @ sextets rest"
| "sextets [a, b] = [a div 4, (a mod 4) * 16 + b div 16, (b mod 16) * 4]"
| "sextets [a] = [a div 4, (a mod 4) * 16]"
| "sextets [] = []"

definition base64url :: "nat list \<Rightarrow> jsstring" where
  "base64url bytes = map b64url_char (sextets bytes)"

text \<open>
  A JSON string literal: the quote and the backslash are escaped, a control character is
  written \<open>\u00XX\<close>, everything else stands for itself.
\<close>

definition json_escape :: "nat \<Rightarrow> nat list" where
  "json_escape c =
     (if c = 34 then [92, 34]
      else if c = 92 then [92, 92]
      else if c < 32 then [92, 117, 48, 48, hex_digit (c div 16), hex_digit (c mod 16)]
      else [c])"

definition json_string :: "nat list \<Rightarrow> nat list" where
  "json_string s = 34 # concat (map json_escape s) @ [34]"

record claims =
  claim_sub :: "nat list"
  claim_email :: "nat list"
  claim_onboarded :: "bool option"

text \<open>The \<open>is_onboarded\<close> member, when the claim is there.\<close>

definition onboarded_member :: "bool option \<Rightarrow> nat list" where
  \<open>onboarded_member ob =
     (case ob of
        None \<Rightarrow> []
      | Some b \<Rightarrow> js '',"is_onboarded":'' @ (if b then js ''true'' else js ''false''))\<close>

definition claims_json :: "claims \<Rightarrow> nat list" where
  \<open>claims_json c =
     js ''{"sub":'' @ json_string (claim_sub c)
     @ js '',"email":'' @ json_string (claim_email c)
     @ onboarded_member (claim_onboarded c)
     @ js ''}''\<close>

definition issue_token :: "jsstring \<Rightarrow> claims \<Rightarrow> jsstring \<Rightarrow> jsstring" where
  "issue_token header c signature =
     header @ [46] @ base64url (utf8 (claims_json c)) @ [46] @ signature"

text \<open>The session that the claims describe.\<close>

definition session_of_claims :: "claims \<Rightarrow> session" where
  "session_of_claims c =
     \<lparr>user_id = JStr (utf16 (claim_sub c)), email = JStr (utf16 (claim_email c)),
      is_onboarded = JBool (claim_onboarded c = Some True)\<rparr>"

subsection \<open>Example claims\<close>

definition example_claims :: claims where
  "example_claims =
     \<lparr>claim_sub = [90, 111, 235],
      claim_email = [26085, 26412, 64, 98, 46, 99, 111, 109],
      claim_onboarded = Some True\<rparr>"

section \<open>Keys that are no array index\<close>

lemma index_of_name: "k \<noteq> [] \<Longrightarrow> \<not> (48 \<le> hd k \<and> hd k \<le> 57) \<Longrightarrow> index_of k = None"
  by (cases k) (auto simp: index_of_def)

lemma set_prop_name:
  "k \<noteq> [] \<Longrightarrow> \<not> (48 \<le> hd k \<and> hd k \<le> 57) \<Longrightarrow> set_prop k v kvs = AList.update k v kvs"
  by (simp add: set_prop_def index_of_name)

section \<open>\<open>JSON.parse\<close> never gives \<open>undefined\<close>\<close>

lemma push_value_defined:
  "v \<noteq> JUndefined \<Longrightarrow> push_value v st = Some cfg \<Longrightarrow> defined_result cfg"
  by (induction v st rule: push_value.induct) (auto simp: defined_result_def)

lemma start_value_defined: "start_value st t = Some cfg \<Longrightarrow> defined_result cfg"
  by (cases t) (auto simp: defined_result_def dest: push_value_defined [rotated])

lemma close_array_defined: "close_array st = Some cfg \<Longrightarrow> defined_result cfg"
  by (induction st rule: close_array.induct) (auto dest: push_value_defined [rotated])

lemma close_object_defined: "close_object st = Some cfg \<Longrightarrow> defined_result cfg"
  by (induction st rule: close_object.induct) (auto dest: push_value_defined [rotated])

lemma start_member_defined: "start_member st t = Some cfg \<Longrightarrow> defined_result cfg"
  by (induction st t rule: start_member.induct) (auto simp: defined_result_def)

lemma parse_step_defined: "parse_step cfg t = Some cfg' \<Longrightarrow> defined_result cfg'"
proof (cases cfg)
  case (Pair st e)
  assume step: "parse_step cfg t = Some cfg'"
  show ?thesis
  proof (cases e)
    case WantColon
    with Pair step show ?thesis
      by (auto simp: defined_result_def split: if_splits)
  next
    case WantCommaOrClose
    with Pair step consider "cfg' = (st, WantValue)" | "cfg' = (st, WantKey)"
      | "close_array st = Some cfg'" | "close_object st = Some cfg'"
      by (auto split: if_splits list.splits frame.splits)
    then show ?thesis
      by cases (auto simp: defined_result_def
                     dest: close_array_defined close_object_defined)
  qed (use Pair step in \<open>auto split: if_splits
         dest: start_value_defined close_array_defined close_object_defined
               start_member_defined\<close>)
qed

lemma parse_tokens_defined:
  "defined_result cfg \<Longrightarrow> parse_tokens cfg ts = Some cfg' \<Longrightarrow> defined_result cfg'"
proof (induction ts arbitrary: cfg)
  case Nil
  then show ?case by simp
next
  case (Cons t ts)
  from Cons.prems(2) obtain c where step: "parse_step cfg t = Some c"
    and rest: "parse_tokens c ts = Some cfg'"
    by (auto split: option.splits)
  from Cons.IH [OF parse_step_defined [OF step] rest] show ?case .
qed

lemma JSON_parse_defined: "JSON_parse text = Inr v \<Longrightarrow> v \<noteq> JUndefined"
proof -
  assume "JSON_parse text = Inr v"
  then obtain ts where "parse_tokens ([], WantValue) ts = Some ([], Complete v)"
    by (auto simp: JSON_parse_def split: option.splits prod.splits list.splits expect.splits)
  from parse_tokens_defined [OF _ this] show ?thesis
    by (simp add: defined_result_def)
qed


lemma parseJwt_defined: "parseJwt token = Inr payload \<Longrightarrow> payload \<noteq> JUndefined"
  by (auto simp: parseJwt_def Let_def split: if_splits sum.splits dest: JSON_parse_defined)

section \<open>Navigation guard: the claims\<close>

text \<open>
  C2. For every session state (absent; present and not onboarded; present and onboarded)
  and every current path, the redirect that \<open>redirectBasedOnStatus\<close> performs is the one
  the policy table gives: an absent session anywhere but on the login page goes to the
  login page, a session that is not onboarded anywhere but on the root page goes to the
  root, an onboarded session on the login or root page goes to the menu page, and every
  other combination leaves the location alone.
\<close>

theorem redirect_matches_policy_table:
  "redirectBasedOnStatus user w
     = apply_redirect (redirectTarget (session_state_of user) (pathname w)) w"
  by (cases user)
     (simp_all add: redirectBasedOnStatus_def session_state_of_def apply_redirect_def
        login_page_def root_page_def index_page_def menu_page_def Let_def)

text \<open>
  C5. The guard is idempotent: when it assigns a redirect target, running it again with
  the same session on the page it redirected to assigns nothing.
\<close>

theorem redirect_idempotent:
  assumes "href w = None"
    and "href (redirectBasedOnStatus user w) = Some p"
  shows "href (redirectBasedOnStatus user (w\<lparr>pathname := p\<rparr>)) = None"
  using assms
  by (cases user)
     (auto simp: redirectBasedOnStatus_def Let_def js_def split: if_splits)

theorem redirect_idempotent_witness:
  "href (redirectBasedOnStatus None
           \<lparr>token_slot = None, pathname = js ''/menu.html'', href = None, clock = 0\<rparr>)
     = Some (js ''/login.html'')
   \<and> href (redirectBasedOnStatus None
           \<lparr>token_slot = None, pathname = js ''/login.html'', href = None, clock = 0\<rparr>)
     = None"
  using redirect_idempotent
    [of "\<lparr>token_slot = None, pathname = js ''/menu.html'', href = None, clock = 0\<rparr>"
        None "js ''/login.html''"]
  by (simp add: redirectBasedOnStatus_def Let_def js_def)

section \<open>Menu viewer: the claims\<close>

lemma truthy_not_nullish: "truthy v \<Longrightarrow> v \<noteq> JUndefined \<and> v \<noteq> JNull"
  by (cases v) simp_all

lemma meals_loop_eq:
  "dm \<noteq> JUndefined \<Longrightarrow> dm \<noteq> JNull \<Longrightarrow>
   meals_loop dm day ms acc
     = Inr (acc @ concat (map (\<lambda>m. if truthy (read_prop dm m)
                                     then [dish_entry day m (read_prop dm m)] else []) ms))"
  by (induction ms arbitrary: acc) (simp_all add: get_prop_def)

lemma days_loop_eq:
  "menu \<noteq> JUndefined \<Longrightarrow> menu \<noteq> JNull \<Longrightarrow>
   days_loop menu ds acc
     = Inr (acc @ concat (map (\<lambda>d. concat (map (\<lambda>m.
                if truthy (read_prop menu d) \<and> truthy (read_prop (read_prop menu d) m)
                then [dish_entry d m (read_prop (read_prop menu d) m)] else []) mealTypes)) ds))"
proof (induction ds arbitrary: acc)
  case Nil
  then show ?case by simp
next
  case (Cons d ds)
  show ?case
  proof (cases "truthy (read_prop menu d)")
    case False
    with Cons show ?thesis by (simp add: get_prop_def)
  next
    case True
    then have "read_prop menu d \<noteq> JUndefined" "read_prop menu d \<noteq> JNull"
      using truthy_not_nullish by blast+
    with True Cons show ?thesis
      by (simp add: get_prop_def meals_loop_eq)
  qed
qed

lemma concat_map_pairs:
  "concat (map (\<lambda>(d, m). f d m) (concat (map (\<lambda>d. map (\<lambda>m. (d, m)) ms) ds)))
     = concat (map (\<lambda>d. concat (map (\<lambda>m. f d m) ms)) ds)"
  by (induction ds) (simp_all add: comp_def)

lemma processMenuData_slots:
  assumes "menu \<noteq> JUndefined" "menu \<noteq> JNull"
  shows "processMenuData menu
     = Inr (concat (map (\<lambda>(d, m).
                if truthy (read_prop menu d) \<and> truthy (read_prop (read_prop menu d) m)
                then [dish_entry d m (read_prop (read_prop menu d) m)] else [])
              (concat (map (\<lambda>d. map (\<lambda>m. (d, m)) mealTypes) days))))"
  unfolding concat_map_pairs processMenuData_def
  using assms by (simp add: days_loop_eq)

lemma processMenuData_nullish:
  "menu = JUndefined \<or> menu = JNull \<Longrightarrow> processMenuData menu = Inl TypeError"
  by (auto simp: processMenuData_def days_def get_prop_def)

lemma update_new: "k \<notin> fst ` set kvs \<Longrightarrow> AList.update k v kvs = kvs @ [(k, v)]"
  by (induction kvs) auto

lemma set_prop_new:
  "index_of k = None \<Longrightarrow> k \<notin> fst ` set kvs \<Longrightarrow> set_prop k v kvs = kvs @ [(k, v)]"
  by (simp add: set_prop_def update_new)

lemma fold_set_prop_new:
  "distinct (map fst ms) \<Longrightarrow> \<forall>k \<in> set (map fst ms). index_of k = None \<and> k \<notin> fst ` set obj \<Longrightarrow>
   fold (\<lambda>(k, v) acc. set_prop k v acc) ms obj = obj @ ms"
proof (induction ms arbitrary: obj)
  case Nil
  then show ?case by simp
next
  case (Cons m ms)
  obtain k v where m: "m = (k, v)" by (cases m)
  from Cons.prems m have new: "index_of k = None" "k \<notin> fst ` set obj" by auto
  from Cons.prems m have rest: "distinct (map fst ms)"
    "\<forall>k' \<in> set (map fst ms). index_of k' = None \<and> k' \<notin> fst ` set (obj @ [(k, v)])"
    by auto
  show ?case
    using Cons.IH [OF rest] new by (simp add: m set_prop_new)
qed

text \<open>
  C8. \<open>processMenuData\<close> goes through the seven weekday keys from Monday to Sunday and,
  within each day, through breakfast, lunch and dinner: its result is what the
  twenty-one slots give in this order, where a slot gives an entry when the menu has
  something under the day and that has something under the meal type, and the entry is
  the object \<open>{day: day, type: mealType, ...dish}\<close>. A menu that is \<open>null\<close> or
  \<open>undefined\<close> makes the function throw. An empty menu yields the empty list, and a
  menu with nothing but \<open>monday.lunch\<close> yields the single entry for that dish: when
  the dish is an object whose keys are no array indices and neither \<open>day\<close> nor
  \<open>type\<close>, the entry has the members \<open>day\<close> and \<open>type\<close> followed by the members
  of the dish.
\<close>

theorem processMenuData_flattens:
  "processMenuData menu =
     (if menu = JUndefined \<or> menu = JNull then Inl TypeError
      else Inr (concat (map (\<lambda>(day, mealType).
                  if truthy (read_prop menu day)
                     \<and> truthy (read_prop (read_prop menu day) mealType)
                  then [JObj (spread [(js ''day'', JStr day), (js ''type'', JStr mealType)]
                                (read_prop (read_prop menu day) mealType))]
                  else [])
             [(js ''monday'', js ''breakfast''), (js ''monday'', js ''lunch''),
              (js ''monday'', js ''dinner''),
              (js ''tuesday'', js ''breakfast''), (js ''tuesday'', js ''lunch''),
              (js ''tuesday'', js ''dinner''),
              (js ''wednesday'', js ''breakfast''), (js ''wednesday'', js ''lunch''),
              (js ''wednesday'', js ''dinner''),
              (js ''thursday'', js ''breakfast''), (js ''thursday'', js ''lunch''),
              (js ''thursday'', js ''dinner''),
              (js ''friday'', js ''breakfast''), (js ''friday'', js ''lunch''),
              (js ''friday'', js ''dinner''),
              (js ''saturday'', js ''breakfast''), (js ''saturday'', js ''lunch''),
              (js ''saturday'', js ''dinner''),
              (js ''sunday'', js ''breakfast''), (js ''sunday'', js ''lunch''),
              (js ''sunday'', js ''dinner'')])))
   \<and> processMenuData (JObj []) = Inr []
   \<and> (truthy dish \<longrightarrow>
        processMenuData (JObj [(js ''monday'', JObj [(js ''lunch'', dish)])])
          = Inr [JObj (spread [(js ''day'', JStr (js ''monday'')),
                               (js ''type'', JStr (js ''lunch''))] dish)])
   \<and> (distinct (map fst members)
        \<and> (\<forall>k \<in> set (map fst members).
              index_of k = None \<and> k \<noteq> js ''day'' \<and> k \<noteq> js ''type'') \<longrightarrow>
        processMenuData (JObj [(js ''monday'', JObj [(js ''lunch'', JObj members)])])
          = Inr [JObj ((js ''day'', JStr (js ''monday''))
                       # (js ''type'', JStr (js ''lunch'')) # members)])"
proof (intro conjI impI)
  have slots:
    "[(js ''monday'', js ''breakfast''), (js ''monday'', js ''lunch''),
      (js ''monday'', js ''dinner''),
      (js ''tuesday'', js ''breakfast''), (js ''tuesday'', js ''lunch''),
      (js ''tuesday'', js ''dinner''),
      (js ''wednesday'', js ''breakfast''), (js ''wednesday'', js ''lunch''),
      (js ''wednesday'', js ''dinner''),
      (js ''thursday'', js ''breakfast''), (js ''thursday'', js ''lunch''),
      (js ''thursday'', js ''dinner''),
      (js ''friday'', js ''breakfast''), (js ''friday'', js ''lunch''),
      (js ''friday'', js ''dinner''),
      (js ''saturday'', js ''breakfast''), (js ''saturday'', js ''lunch''),
      (js ''saturday'', js ''dinner''),
      (js ''sunday'', js ''breakfast''), (js ''sunday'', js ''lunch''),
      (js ''sunday'', js ''dinner'')]
     = concat (map (\<lambda>d. map (\<lambda>m. (d, m)) mealTypes) days)"
    by (simp add: days_def mealTypes_def)
  show "processMenuData menu =
     (if menu = JUndefined \<or> menu = JNull then Inl TypeError
      else Inr (concat (map (\<lambda>(day, mealType).
                  if truthy (read_prop menu day)
                     \<and> truthy (read_prop (read_prop menu day) mealType)
                  then [JObj (spread [(js ''day'', JStr day), (js ''type'', JStr mealType)]
                                (read_prop (read_prop menu day) mealType))]
                  else [])
             [(js ''monday'', js ''breakfast''), (js ''monday'', js ''lunch''),
              (js ''monday'', js ''dinner''),
              (js ''tuesday'', js ''breakfast''), (js ''tuesday'', js ''lunch''),
              (js ''tuesday'', js ''dinner''),
              (js ''wednesday'', js ''breakfast''), (js ''wednesday'', js ''lunch''),
              (js ''wednesday'', js ''dinner''),
              (js ''thursday'', js ''breakfast''), (js ''thursday'', js ''lunch''),
              (js ''thursday'', js ''dinner''),
              (js ''friday'', js ''breakfast''), (js ''friday'', js ''lunch''),
              (js ''friday'', js ''dinner''),
              (js ''saturday'', js ''breakfast''), (js ''saturday'', js ''lunch''),
              (js ''saturday'', js ''dinner''),
              (js ''sunday'', js ''breakfast''), (js ''sunday'', js ''lunch''),
              (js ''sunday'', js ''dinner'')])))"
    unfolding slots
  proof (cases "menu = JUndefined \<or> menu = JNull")
    case True
    then show "processMenuData menu =
     (if menu = JUndefined \<or> menu = JNull then Inl TypeError
      else Inr (concat (map (\<lambda>(day, mealType).
                  if truthy (read_prop menu day)
                     \<and> truthy (read_prop (read_prop menu day) mealType)
                  then [JObj (spread [(js ''day'', JStr day), (js ''type'', JStr mealType)]
                                (read_prop (read_prop menu day) mealType))]
                  else [])
             (concat (map (\<lambda>d. map (\<lambda>m. (d, m)) mealTypes) days)))))"
      using processMenuData_nullish [of menu] by simp
  next
    case False
    then show "processMenuData menu =
     (if menu = JUndefined \<or> menu = JNull then Inl TypeError
      else Inr (concat (map (\<lambda>(day, mealType).
                  if truthy (read_prop menu day)
                     \<and> truthy (read_prop (read_prop menu day) mealType)
                  then [JObj (spread [(js ''day'', JStr day), (js ''type'', JStr mealType)]
                                (read_prop (read_prop menu day) mealType))]
                  else [])
             (concat (map (\<lambda>d. map (\<lambda>m. (d, m)) mealTypes) days)))))"
      using processMenuData_slots [of menu, unfolded dish_entry_def] by simp
  qed
next
  show "processMenuData (JObj []) = Inr []"
    by (simp add: processMenuData_def days_def get_prop_def read_prop_def)
next
  assume "truthy dish"
  then show "processMenuData (JObj [(js ''monday'', JObj [(js ''lunch'', dish)])])
          = Inr [JObj (spread [(js ''day'', JStr (js ''monday'')),
                               (js ''type'', JStr (js ''lunch''))] dish)]"
    by (simp add: processMenuData_def days_def mealTypes_def get_prop_def read_prop_def
          dish_entry_def js_def)
next
  assume plain: "distinct (map fst members)
        \<and> (\<forall>k \<in> set (map fst members).
              index_of k = None \<and> k \<noteq> js ''day'' \<and> k \<noteq> js ''type'')"
  then have "spread [(js ''day'', JStr (js ''monday'')), (js ''type'', JStr (js ''lunch''))]
               (JObj members)
             = [(js ''day'', JStr (js ''monday'')), (js ''type'', JStr (js ''lunch''))] @ members"
    unfolding spread_def own_props.simps
    by (intro fold_set_prop_new) auto
  then show "processMenuData (JObj [(js ''monday'', JObj [(js ''lunch'', JObj members)])])
          = Inr [JObj ((js ''day'', JStr (js ''monday''))
                       # (js ''type'', JStr (js ''lunch'')) # members)]"
    by (simp add: processMenuData_def days_def mealTypes_def get_prop_def read_prop_def
          dish_entry_def js_def)
qed

theorem processMenuData_flattens_witness:
  "processMenuData example_menu
     = Inr [JObj [(js ''day'', JStr (js ''monday'')), (js ''type'', JStr (js ''breakfast'')),
                  (js ''name'', JStr (js ''Soup'')), (js ''description'', JStr (js ''Hot'')),
                  (js ''ingredients'', JArr [JStr (js ''leek'')]),
                  (js ''preparation_steps'', JArr [])],
            JObj [(js ''day'', JStr (js ''monday'')), (js ''type'', JStr (js ''lunch'')),
                  (js ''name'', JStr (js ''Pasta'')), (js ''description'', JStr (js ''Fresh'')),
                  (js ''ingredients'', JArr [JStr (js ''wheat flour''), JStr (js ''egg'')]),
                  (js ''preparation_steps'', JArr [JStr (js ''Boil'')])],
            JObj [(js ''day'', JStr (js ''tuesday'')), (js ''type'', JStr (js ''dinner'')),
                  (js ''name'', JStr (js ''Soup'')), (js ''description'', JStr (js ''Hot'')),
                  (js ''ingredients'', JArr [JStr (js ''leek'')]),
                  (js ''preparation_steps'', JArr [])]]
   \<and> truthy example_relabelled
   \<and> processMenuData (JObj [(js ''monday'', JObj [(js ''lunch'', example_relabelled)])])
       = Inr [JObj [(js ''0'', JStr (js ''first'')), (js ''1'', JStr (js ''second'')),
                    (js ''day'', JStr (js ''friday'')), (js ''type'', JStr (js ''lunch'')),
                    (js ''name'', JStr (js ''Stew''))]]
   \<and> distinct (map fst [(js ''name'', JStr (js ''Stew''))])
   \<and> index_of (js ''name'') = None \<and> js ''name'' \<noteq> js ''day'' \<and> js ''name'' \<noteq> js ''type''
   \<and> processMenuData
         (JObj [(js ''monday'', JObj [(js ''lunch'', JObj [(js ''name'', JStr (js ''Stew''))])])])
       = Inr [JObj [(js ''day'', JStr (js ''monday'')), (js ''type'', JStr (js ''lunch'')),
                    (js ''name'', JStr (js ''Stew''))]]"
  using processMenuData_flattens
          [of example_menu example_relabelled "[(js ''name'', JStr (js ''Stew''))]"]
  by (simp add: example_menu_def example_pasta_def example_soup_def example_relabelled_def
        spread_def read_prop_def set_prop_def index_of_def js_def)

lemma includes_iff: "str_includes s t \<longleftrightarrow> (\<exists>ps ss. s = ps @ t @ ss)"
proof (induction s)
  case Nil
  then show ?case by auto
next
  case (Cons c cs)
  show ?case
  proof
    assume "str_includes (c # cs) t"
    then consider "take (length t) (c # cs) = t" | "str_includes cs t" by auto
    then show "\<exists>ps ss. c # cs = ps @ t @ ss"
    proof cases
      case 1
      then have "c # cs = [] @ t @ drop (length t) (c # cs)"
        by (metis append_Nil append_take_drop_id)
      then show ?thesis by blast
    next
      case 2
      with Cons obtain ps ss where "cs = ps @ t @ ss" by auto
      then have "c # cs = (c # ps) @ t @ ss" by simp
      then show ?thesis by blast
    qed
  next
    assume "\<exists>ps ss. c # cs = ps @ t @ ss"
    then obtain ps ss where eq: "c # cs = ps @ t @ ss" by blast
    show "str_includes (c # cs) t"
    proof (cases ps)
      case Nil
      with eq have "take (length t) (c # cs) = t" by simp
      then show ?thesis by simp
    next
      case (Cons p ps')
      with eq have "cs = ps' @ t @ ss" by simp
      with Cons.IH show ?thesis by auto
    qed
  qed
qed

lemma ingredients_some_strs:
  "ingredients_some lc term (map JStr ings) = Inr (\<exists>ing \<in> set ings. str_includes (lc ing) term)"
  by (induction ings) (simp_all add: call_toLowerCase_def)

lemma str_of_Some: "str_of v = Some s \<Longrightarrow> v = JStr s"
  by (cases v) simp_all

lemma strs_of_Some: "strs_of v = Some ings \<Longrightarrow> v = JArr (map JStr ings)"
proof (cases v)
  case (JArr xs)
  assume "strs_of v = Some ings"
  with JArr have all: "list_all (\<lambda>x. str_of x \<noteq> None) xs"
    and ings: "ings = map (\<lambda>x. the (str_of x)) xs"
    by (auto split: if_splits)
  have "map JStr (map (\<lambda>x. the (str_of x)) xs) = xs" using all
  proof (induction xs)
    case Nil then show ?case by simp
  next
    case (Cons x xs)
    then show ?case by (cases x) simp_all
  qed
  with JArr ings show ?thesis by simp
qed simp_all

lemma dish_matches_dish:
  assumes "is_dish d"
  shows "dish_matches lc (lc t) d = Inr (dish_contains lc t d)"
proof -
  from assms obtain n ds ings where
    nn: "d \<noteq> JUndefined" "d \<noteq> JNull"
    and n: "read_prop d (js ''name'') = JStr n"
    and ds: "read_prop d (js ''description'') = JStr ds"
    and ings: "read_prop d (js ''ingredients'') = JArr (map JStr ings)"
    unfolding is_dish_def by (auto dest!: str_of_Some strs_of_Some)
  have sel: "dish_name d = n" "dish_description d = ds" "dish_ingredients d = ings"
    by (simp_all add: dish_name_def dish_description_def dish_ingredients_def n ds ings
          list_all_iff comp_def)
  show ?thesis
    unfolding dish_matches_def dish_contains_def sel ci_substring_def includes_iff [symmetric]
    by (simp add: get_prop_def nn n ds ings call_toLowerCase_def ingredients_some_strs)
qed

lemma filter_dishes_dishes:
  "\<forall>d \<in> set dishes. is_dish d \<Longrightarrow>
   filter_dishes lc (lc t) dishes = Inr (filter (dish_contains lc t) dishes)"
  by (induction dishes) (simp_all add: dish_matches_dish)

lemma ci_substring_includes: "ci_substring lc s t = str_includes (lc s) (lc t)"
  by (simp add: ci_substring_def includes_iff)

text \<open>
  C9. For every search term and every list of dishes, the search handler hands on exactly
  the dishes whose name, description or some ingredient contains the term as a
  case-insensitive substring, in their original order.
\<close>

theorem search_filters:
  assumes "\<forall>d \<in> set dishes. is_dish d"
  shows "search toLowerCase t dishes = Inr (filter (dish_contains toLowerCase t) dishes)"
  using assms by (simp add: search_def filter_dishes_dishes)

theorem search_filters_witness:
  "is_dish (dish_entry (js ''monday'') (js ''lunch'') example_pasta)
   \<and> is_dish (dish_entry (js ''tuesday'') (js ''dinner'') example_soup)
   \<and> search ascii_lower (js ''WHEAT'') example_dishes
      = Inr [dish_entry (js ''monday'') (js ''lunch'') example_pasta]
   \<and> search ascii_lower (js ''wheat'') example_dishes
      = Inr [dish_entry (js ''monday'') (js ''lunch'') example_pasta]"
  using search_filters [of example_dishes ascii_lower "js ''WHEAT''"]
    search_filters [of example_dishes ascii_lower "js ''wheat''"]
  by (simp add: example_dishes_def example_pasta_def example_soup_def dish_entry_def
        spread_def is_dish_def read_prop_def dish_contains_def dish_name_def
        dish_description_def dish_ingredients_def ci_substring_includes ascii_lower_def
        js_def set_prop_name)

section \<open>Session inspector: the claims\<close>

lemma parse_expired:
  "parseJwt expired_token
     = Inr (JObj [(js ''sub'', JStr (js ''u1'')), (js ''email'', JStr (js ''a@b.com'')),
                  (js ''is_onboarded'', JBool True), (js ''exp'', JNum (to_double 1))])"
  by (simp add: expired_token_def js_eval)

lemma parse_two_segment:
  "parseJwt two_segment_token = Inr (JObj [(js ''exp'', JNum (to_double 9999999999))])"
  by (simp add: two_segment_token_def js_eval)

lemma parse_string_exp:
  "parseJwt string_exp_token = Inr (JObj [(js ''exp'', JStr (js ''9999999999''))])"
  by (simp add: string_exp_token_def js_eval)

lemma parse_no_exp:
  "parseJwt no_exp_token
     = Inr (JObj [(js ''sub'', JStr (js ''u1'')), (js ''email'', JStr (js ''a@b.com'')),
                  (js ''is_onboarded'', JBool True)])"
  by (simp add: no_exp_token_def js_eval)

lemma parse_valid:
  "parseJwt valid_token
     = Inr (JObj [(js ''sub'', JStr [90, 111, 235]),
                  (js ''email'', JStr [26085, 26412, 64, 98, 46, 99, 111, 109]),
                  (js ''is_onboarded'', JBool True), (js ''exp'', JNum (to_double 9999999999))])"
  by (simp add: valid_token_def js_eval)

lemma to_double_1: "to_double 1 = Fin 1"
  by (simp add: num_eval Let_def)

lemma to_double_exp: "to_double 9999999999 = Fin 9999999999"
  by (simp add: num_eval Let_def)

lemma to_double_1000: "to_double 1000 = Fin 1000"
  by (simp add: num_eval Let_def)

lemma to_double_expiry: "to_double 9999999999000 = Fin 9999999999000"
  by (simp add: num_eval Let_def)

lemma string_to_number_exp: "string_to_number (js ''9999999999'') = Fin 9999999999"
  by (simp add: string_to_number_def trim_def js_whitespace_def decimal_literal_def
        radix_prefix_def to_double_exp js_eval)

lemma isAuthenticated_decoded:
  assumes "getToken w = Some token" "token \<noteq> []" "parseJwt token = Inr payload"
    and "payload \<noteq> JNull"
  shows "isAuthenticated w
           = (case to_number (read_prop payload (js ''exp'')) of
                Inl e \<Rightarrow> False
              | Inr n \<Rightarrow> js_less (Fin (of_int (clock w))) (js_mul n (Fin 1000)))"
  using assms parseJwt_defined [of token payload]
  by (cases "to_number (read_prop payload (js ''exp''))")
     (simp_all add: isAuthenticated_def get_prop_def Let_def)

lemma getUserFromToken_decoded:
  assumes "getToken w = Some token" "token \<noteq> []" "parseJwt token = Inr payload"
    and "payload \<noteq> JNull"
  shows "getUserFromToken w
           = Some \<lparr>user_id = read_prop payload (js ''sub''),
                   email = read_prop payload (js ''email''),
                   is_onboarded = js_or (read_prop payload (js ''is_onboarded'')) (JBool False)\<rparr>"
  using assms parseJwt_defined [of token payload]
  by (simp add: getUserFromToken_def get_prop_def)

lemma getToken_browser_with: "getToken (browser_with token path) = Some token"
  by (simp add: getToken_def browser_with_def)

lemma expired_token_nonempty: "expired_token \<noteq> []"
  by (simp add: expired_token_def js_def)

text \<open>
  C3. An expired credential is not treated like an absent one by \<open>checkAuthAndRedirect\<close>:
  for the credential whose payload is
  \<open>{"sub":"u1","email":"a@b.com","is_onboarded":true,"exp":1}\<close>, long expired,
  \<open>isAuthenticated\<close> is false, yet on the menu page \<open>checkAuthAndRedirect\<close>
  redirects nowhere, while with no credential it redirects to the login page.
\<close>

theorem expired_credential_unlike_absent:
  "\<not> isAuthenticated (browser_with expired_token (js ''/menu.html''))
   \<and> href (checkAuthAndRedirect (browser_with expired_token (js ''/menu.html''))) = None
   \<and> href (checkAuthAndRedirect (clearToken (browser_with expired_token (js ''/menu.html''))))
       = Some (js ''/login.html'')"
proof (intro conjI)
  let ?w = "browser_with expired_token (js ''/menu.html'')"
  have auth: "isAuthenticated ?w
      = (case to_number (read_prop (JObj [(js ''sub'', JStr (js ''u1'')),
             (js ''email'', JStr (js ''a@b.com'')), (js ''is_onboarded'', JBool True),
             (js ''exp'', JNum (to_double 1))]) (js ''exp'')) of
           Inl e \<Rightarrow> False
         | Inr n \<Rightarrow> js_less (Fin (of_int (clock ?w))) (js_mul n (Fin 1000)))"
    by (rule isAuthenticated_decoded
          [OF getToken_browser_with expired_token_nonempty parse_expired]) simp_all
  show "\<not> isAuthenticated ?w"
    unfolding auth
    by (simp add: read_prop_def js_def to_double_1 to_double_1000 browser_with_def)
  have user: "getUserFromToken ?w
      = Some \<lparr>user_id = JStr (js ''u1''), email = JStr (js ''a@b.com''),
              is_onboarded = JBool True\<rparr>"
    by (simp add: getUserFromToken_decoded
          [OF getToken_browser_with expired_token_nonempty parse_expired]
          read_prop_def js_or_def js_def)
  show "href (checkAuthAndRedirect ?w) = None"
    unfolding checkAuthAndRedirect_def user
    by (simp add: redirectBasedOnStatus_def js_def browser_with_def)
  show "href (checkAuthAndRedirect (clearToken ?w)) = Some (js ''/login.html'')"
    by (simp add: checkAuthAndRedirect_def getUserFromToken_def getToken_def clearToken_def
          redirectBasedOnStatus_def js_def browser_with_def)
qed

lemma parseJwt_parts: "parseJwt token = Inr payload \<Longrightarrow> 2 \<le> length (split_on 46 token)"
  by (auto simp: parseJwt_def Let_def split: if_splits)

text \<open>
  C1, as the code has it. \<open>isAuthenticated\<close> is true if and only if a non-empty
  credential is stored, it has at least two dot-separated parts of which the second
  decodes (\<open>parseJwt\<close>) to a value other than \<open>null\<close>, the payload's \<open>exp\<close>
  converts to a number, and the current time is strictly less than that number times
  1000. In every other case, also when the decoding or the conversion throws, it is
  false. The number of parts is not checked beyond the second.
\<close>

theorem isAuthenticated_iff:
  "isAuthenticated w \<longleftrightarrow>
     (\<exists>token payload n.
        getToken w = Some token \<and> token \<noteq> []
        \<and> 2 \<le> length (split_on 46 token)
        \<and> parseJwt token = Inr payload
        \<and> payload \<noteq> JNull
        \<and> to_number (read_prop payload (js ''exp'')) = Inr n
        \<and> js_less (Fin (of_int (clock w))) (js_mul n (Fin 1000)))"
proof
  assume "isAuthenticated w"
  then obtain token payload n where
    t: "getToken w = Some token" "token \<noteq> []" and p: "parseJwt token = Inr payload"
    and nn: "payload \<noteq> JNull"
    and c: "to_number (read_prop payload (js ''exp'')) = Inr n"
    and l: "js_less (Fin (of_int (clock w))) (js_mul n (Fin 1000))"
    by (auto simp: isAuthenticated_def get_prop_def Let_def
             split: option.splits if_splits sum.splits)
  with parseJwt_parts [OF p] show
    "\<exists>token payload n.
        getToken w = Some token \<and> token \<noteq> []
        \<and> 2 \<le> length (split_on 46 token)
        \<and> parseJwt token = Inr payload
        \<and> payload \<noteq> JNull
        \<and> to_number (read_prop payload (js ''exp'')) = Inr n
        \<and> js_less (Fin (of_int (clock w))) (js_mul n (Fin 1000))"
    by blast
next
  assume "\<exists>token payload n.
        getToken w = Some token \<and> token \<noteq> []
        \<and> 2 \<le> length (split_on 46 token)
        \<and> parseJwt token = Inr payload
        \<and> payload \<noteq> JNull
        \<and> to_number (read_prop payload (js ''exp'')) = Inr n
        \<and> js_less (Fin (of_int (clock w))) (js_mul n (Fin 1000))"
  then show "isAuthenticated w"
    by (auto simp: isAuthenticated_decoded)
qed

lemma two_segment_token_nonempty: "two_segment_token \<noteq> []"
  by (simp add: two_segment_token_def js_def)

lemma two_segment_token_parts: "length (split_on 46 two_segment_token) = 2"
  by (simp add: two_segment_token_def js_def)

text \<open>
  C1 as stated fails: a credential of two parts, which is no three-segment token,
  authenticates when its second part holds a future expiry.
\<close>

theorem two_segment_token_authenticates:
  "length (split_on 46 two_segment_token) = 2
   \<and> isAuthenticated (browser_with two_segment_token (js ''/''))"
proof
  let ?w = "browser_with two_segment_token (js ''/'')"
  show "length (split_on 46 two_segment_token) = 2" by (rule two_segment_token_parts)
  have "isAuthenticated ?w
      = (case to_number (read_prop (JObj [(js ''exp'', JNum (to_double 9999999999))])
             (js ''exp'')) of
           Inl e \<Rightarrow> False
         | Inr n \<Rightarrow> js_less (Fin (of_int (clock ?w))) (js_mul n (Fin 1000)))"
    by (rule isAuthenticated_decoded
          [OF getToken_browser_with two_segment_token_nonempty parse_two_segment]) simp_all
  then show "isAuthenticated ?w"
    by (simp add: read_prop_def js_def to_double_exp to_double_expiry browser_with_def)
qed

lemma valid_token_nonempty: "valid_token \<noteq> []"
  by (simp add: valid_token_def js_def)

theorem isAuthenticated_iff_witness:
  "isAuthenticated (browser_with valid_token (js ''/''))
   \<and> length (split_on 46 valid_token) = 3
   \<and> \<not> isAuthenticated (browser_with expired_token (js ''/''))
   \<and> \<not> isAuthenticated (browser_with (js ''not-a-token'') (js ''/''))"
proof (intro conjI)
  let ?w = "browser_with valid_token (js ''/'')"
  have num: "to_number (read_prop (JObj [(js ''sub'', JStr [90, 111, 235]),
                  (js ''email'', JStr [26085, 26412, 64, 98, 46, 99, 111, 109]),
                  (js ''is_onboarded'', JBool True), (js ''exp'', JNum (to_double 9999999999))])
             (js ''exp'')) = Inr (Fin 9999999999)"
    by (simp add: read_prop_def js_def to_double_exp)
  have less: "js_less (Fin (of_int (clock ?w))) (js_mul (Fin 9999999999) (Fin 1000))"
    by (simp add: to_double_expiry browser_with_def)
  show "isAuthenticated ?w"
    using isAuthenticated_iff [of ?w] getToken_browser_with [of valid_token "js ''/''"]
      valid_token_nonempty parse_valid parseJwt_parts [OF parse_valid] num less
    by blast
  show "length (split_on 46 valid_token) = 3"
    by (simp add: valid_token_def js_def)
  let ?e = "browser_with expired_token (js ''/'')"
  have num1: "to_number (read_prop (JObj [(js ''sub'', JStr (js ''u1'')),
             (js ''email'', JStr (js ''a@b.com'')), (js ''is_onboarded'', JBool True),
             (js ''exp'', JNum (to_double 1))]) (js ''exp'')) = Inr (Fin 1)"
    by (simp add: read_prop_def js_def to_double_1)
  have "\<not> js_less (Fin (of_int (clock ?e))) (js_mul (Fin 1) (Fin 1000))"
    by (simp add: to_double_1000 browser_with_def)
  then show "\<not> isAuthenticated ?e"
    using isAuthenticated_iff [of ?e] getToken_browser_with [of expired_token "js ''/''"]
      parse_expired num1
    by auto
  have "parseJwt (js ''not-a-token'') = Inl TypeError"
    by (simp add: parseJwt_def js_def)
  then show "\<not> isAuthenticated (browser_with (js ''not-a-token'') (js ''/''))"
    using isAuthenticated_iff [of "browser_with (js ''not-a-token'') (js ''/'')"]
      getToken_browser_with [of "js ''not-a-token''" "js ''/''"]
    by auto
qed

text \<open>
  C10, as the code has it. A stored token whose payload decodes to an object with no
  \<open>exp\<close> member is not authenticated: a missing expiry never counts as "never expires".
\<close>

theorem no_exp_not_authenticated:
  assumes "getToken w = Some token"
    and "parseJwt token = Inr (JObj members)"
    and "map_of members (js ''exp'') = None"
  shows "\<not> isAuthenticated w"
  using assms
  by (simp add: isAuthenticated_def get_prop_def read_prop_def Let_def)

theorem no_exp_not_authenticated_witness:
  "length (split_on 46 no_exp_token) = 3
   \<and> parseJwt no_exp_token
       = Inr (JObj [(js ''sub'', JStr (js ''u1'')), (js ''email'', JStr (js ''a@b.com'')),
                    (js ''is_onboarded'', JBool True)])
   \<and> \<not> isAuthenticated (browser_with no_exp_token (js ''/''))"
  using no_exp_not_authenticated [OF getToken_browser_with parse_no_exp, of "js ''/''"]
    parse_no_exp
  by (simp add: no_exp_token_def js_def)

lemma string_exp_token_nonempty: "string_exp_token \<noteq> []"
  by (simp add: string_exp_token_def js_def)

text \<open>
  C10 as stated fails: an object whose \<open>exp\<close> is the string \<open>"9999999999"\<close> has no
  numeric \<open>exp\<close>, and the token authenticates, because the string is converted to a
  number.
\<close>

theorem string_exp_authenticates:
  "length (split_on 46 string_exp_token) = 3
   \<and> parseJwt string_exp_token = Inr (JObj [(js ''exp'', JStr (js ''9999999999''))])
   \<and> isAuthenticated (browser_with string_exp_token (js ''/''))"
proof (intro conjI)
  let ?w = "browser_with string_exp_token (js ''/'')"
  show "length (split_on 46 string_exp_token) = 3"
    by (simp add: string_exp_token_def js_def)
  show "parseJwt string_exp_token = Inr (JObj [(js ''exp'', JStr (js ''9999999999''))])"
    by (rule parse_string_exp)
  have "isAuthenticated ?w
      = (case to_number (read_prop (JObj [(js ''exp'', JStr (js ''9999999999''))])
             (js ''exp'')) of
           Inl e \<Rightarrow> False
         | Inr n \<Rightarrow> js_less (Fin (of_int (clock ?w))) (js_mul n (Fin 1000)))"
    by (rule isAuthenticated_decoded
          [OF getToken_browser_with string_exp_token_nonempty parse_string_exp]) simp_all
  also have "read_prop (JObj [(js ''exp'', JStr (js ''9999999999''))]) (js ''exp'')
      = JStr (js ''9999999999'')"
    by (simp add: read_prop_def)
  finally show "isAuthenticated ?w"
    by (simp add: string_to_number_exp to_double_expiry browser_with_def)
qed

section \<open>Auth gateway and onboarding: the claims\<close>

lemma bad_gateway_body: "JSON_parse (js ''<html>Bad Gateway</html>'') = Inl SyntaxError"
  by (simp add: JSON_parse_def is_digit_def js_def)

text \<open>
  C6 as stated fails: a non-success response whose body is no JSON, such as the HTML page
  of a gateway, makes \<open>signup\<close> raise the parse error of \<open>response.json()\<close>, not an
  error with the fallback message.
\<close>

theorem signup_bad_gateway:
  "\<not> ok \<lparr>status = 502, body = js ''<html>Bad Gateway</html>''\<rparr>
   \<and> signup (Responded \<lparr>status = 502, body = js ''<html>Bad Gateway</html>''\<rparr>)
       = Inl SyntaxError
   \<and> signup (Responded \<lparr>status = 502, body = js ''<html>Bad Gateway</html>''\<rparr>)
       \<noteq> Inl (Error (js ''Signup failed''))"
  by (simp add: signup_def ok_def response_json_def bad_gateway_body)

lemma to_string_throws:
  "to_string v = Inl e \<longrightarrow> e = TypeError"
  "join_elements vs = Inl e \<longrightarrow> e = TypeError"
  by (induction v and vs rule: to_string_join_elements.induct)
     (auto split: if_splits sum.splits)

lemma to_string_TypeError: "to_string v = Inl e \<Longrightarrow> e = TypeError"
  using to_string_throws(1) by blast

lemma to_string_throws_truthy: "to_string v = Inl e \<Longrightarrow> truthy v"
  by (cases v) simp_all

text \<open>
  C6, as the code has it. For a non-success response whose body is JSON for a value
  other than \<open>null\<close>, what \<open>signup\<close>, \<open>login\<close> and \<open>googleAuth\<close> raise depends on
  the body's \<open>detail\<close>: when it is absent or falsy, an \<open>Error\<close> with their own
  fallback message; when it is a non-empty string, an \<open>Error\<close> with that string as its
  message; when it is any other truthy value, an \<open>Error\<close> whose message is the value
  converted to a string, or a TypeError when that conversion throws. When the body is
  JSON \<open>null\<close> they raise a TypeError, and when it is no JSON the parse error. With a
  token stored, \<open>getCurrentUser\<close> on a 401 clears the token and returns \<open>null\<close>
  without raising, and on any other non-success status raises
  \<open>Error("Failed to get user info")\<close>.
\<close>

theorem auth_failure_contract:
  assumes "\<not> ok r"
  shows "(response_json r = Inr err \<and> err \<noteq> JNull \<longrightarrow>
            (\<not> truthy (read_prop err (js ''detail'')) \<longrightarrow>
               signup (Responded r) = Inl (Error (js ''Signup failed''))
               \<and> login (Responded r) = Inl (Error (js ''Login failed''))
               \<and> googleAuth (Responded r) = Inl (Error (js ''Google authentication failed'')))
          \<and> (read_prop err (js ''detail'') = JStr str \<and> str \<noteq> [] \<longrightarrow>
               signup (Responded r) = Inl (Error str)
               \<and> login (Responded r) = Inl (Error str)
               \<and> googleAuth (Responded r) = Inl (Error str))
          \<and> (truthy (read_prop err (js ''detail''))
               \<and> to_string (read_prop err (js ''detail'')) = Inr message \<longrightarrow>
               signup (Responded r) = Inl (Error message)
               \<and> login (Responded r) = Inl (Error message)
               \<and> googleAuth (Responded r) = Inl (Error message))
          \<and> (to_string (read_prop err (js ''detail'')) = Inl thrown \<longrightarrow>
               thrown = TypeError
               \<and> signup (Responded r) = Inl TypeError
               \<and> login (Responded r) = Inl TypeError
               \<and> googleAuth (Responded r) = Inl TypeError))
       \<and> (response_json r = Inr JNull \<longrightarrow>
            signup (Responded r) = Inl TypeError \<and> login (Responded r) = Inl TypeError
            \<and> googleAuth (Responded r) = Inl TypeError)
       \<and> (response_json r = Inl e \<longrightarrow>
            signup (Responded r) = Inl e \<and> login (Responded r) = Inl e
            \<and> googleAuth (Responded r) = Inl e)
       \<and> (getToken w = Some token \<and> token \<noteq> [] \<longrightarrow>
            getCurrentUser (Responded r) w
              = (if status r = 401 then (Inr JNull, clearToken w)
                 else (Inl (Error (js ''Failed to get user info'')), w)))"
proof (intro conjI impI)
  assume a: "response_json r = Inr err \<and> err \<noteq> JNull"
  then have d: "err \<noteq> JUndefined"
    using JSON_parse_defined [of "body r" err] by (simp add: response_json_def)
  {
    assume "\<not> truthy (read_prop err (js ''detail''))"
    with a d assms show "signup (Responded r) = Inl (Error (js ''Signup failed''))"
      "login (Responded r) = Inl (Error (js ''Login failed''))"
      "googleAuth (Responded r) = Inl (Error (js ''Google authentication failed''))"
      by (simp_all add: signup_def login_def googleAuth_def get_prop_def js_or_def
            new_Error_def)
  next
    assume "read_prop err (js ''detail'') = JStr str \<and> str \<noteq> []"
    with a d assms show "signup (Responded r) = Inl (Error str)"
      "login (Responded r) = Inl (Error str)" "googleAuth (Responded r) = Inl (Error str)"
      by (simp_all add: signup_def login_def googleAuth_def get_prop_def js_or_def
            new_Error_def)
  next
    assume t: "truthy (read_prop err (js ''detail''))
               \<and> to_string (read_prop err (js ''detail'')) = Inr message"
    then have "read_prop err (js ''detail'') \<noteq> JUndefined" by auto
    with t a d assms show "signup (Responded r) = Inl (Error message)"
      "login (Responded r) = Inl (Error message)"
      "googleAuth (Responded r) = Inl (Error message)"
      by (simp_all add: signup_def login_def googleAuth_def get_prop_def js_or_def
            new_Error_def)
  next
    assume t: "to_string (read_prop err (js ''detail'')) = Inl thrown"
    show e: "thrown = TypeError" using t by (rule to_string_TypeError)
    from t have "truthy (read_prop err (js ''detail''))" by (rule to_string_throws_truthy)
    moreover from this have "read_prop err (js ''detail'') \<noteq> JUndefined" by auto
    ultimately show "signup (Responded r) = Inl TypeError"
      "login (Responded r) = Inl TypeError" "googleAuth (Responded r) = Inl TypeError"
      using t e a d assms
      by (simp_all add: signup_def login_def googleAuth_def get_prop_def js_or_def
            new_Error_def)
  }
next
  assume "response_json r = Inr JNull"
  with assms show "signup (Responded r) = Inl TypeError" "login (Responded r) = Inl TypeError"
    "googleAuth (Responded r) = Inl TypeError"
    by (simp_all add: signup_def login_def googleAuth_def get_prop_def)
next
  assume "response_json r = Inl e"
  with assms show "signup (Responded r) = Inl e" "login (Responded r) = Inl e"
    "googleAuth (Responded r) = Inl e"
    by (simp_all add: signup_def login_def googleAuth_def)
next
  assume "getToken w = Some token \<and> token \<noteq> []"
  with assms show
    "getCurrentUser (Responded r) w
       = (if status r = 401 then (Inr JNull, clearToken w)
          else (Inl (Error (js ''Failed to get user info'')), w))"
    by (simp add: getCurrentUser_def)
qed

lemma taken_body_parsed:
  "JSON_parse taken_body = Inr (JObj [(js ''detail'', JStr (js ''Email already registered''))])"
  by (simp add: taken_body_def js_eval)

lemma shadowed_body_parsed:
  "JSON_parse shadowed_body
     = Inr (JObj [(js ''detail'', JObj [(js ''toString'', JNum (to_double 1))])])"
  by (simp add: shadowed_body_def js_eval)

lemma invalid_body_parsed:
  "JSON_parse invalid_body
     = Inr (JObj [(js ''detail'', JArr [JObj [(js ''msg'', JStr (js ''field required''))],
                                        JStr (js ''x'')])])"
  by (simp add: invalid_body_def js_eval)

theorem auth_failure_contract_witness:
  "\<not> ok \<lparr>status = 400, body = taken_body\<rparr>
   \<and> signup (Responded \<lparr>status = 400, body = taken_body\<rparr>)
       = Inl (Error (js ''Email already registered''))
   \<and> login (Responded \<lparr>status = 401, body = js ''{}''\<rparr>)
       = Inl (Error (js ''Login failed''))
   \<and> googleAuth (Responded \<lparr>status = 422, body = invalid_body\<rparr>)
       = Inl (Error (js ''[object Object],x''))
   \<and> signup (Responded \<lparr>status = 400, body = shadowed_body\<rparr>) = Inl TypeError
   \<and> login (Responded \<lparr>status = 500, body = js ''null''\<rparr>) = Inl TypeError
   \<and> getCurrentUser (Responded \<lparr>status = 401, body = []\<rparr>)
         (browser_with expired_token (js ''/''))
       = (Inr JNull, clearToken (browser_with expired_token (js ''/'')))
   \<and> getCurrentUser (Responded \<lparr>status = 500, body = []\<rparr>)
         (browser_with expired_token (js ''/''))
       = (Inl (Error (js ''Failed to get user info'')),
          browser_with expired_token (js ''/''))"
proof (intro conjI)
  have empty_object: "JSON_parse (js ''{}'') = Inr (JObj [])"
    by (simp add: js_eval)
  have null_body: "JSON_parse (js ''null'') = Inr JNull"
    by (simp add: js_eval)
  show nok: "\<not> ok \<lparr>status = 400, body = taken_body\<rparr>"
    by (simp add: ok_def)
  have nok400: "\<not> ok \<lparr>status = 400, body = b\<rparr>" and nok401: "\<not> ok \<lparr>status = 401, body = b\<rparr>"
    and nok422: "\<not> ok \<lparr>status = 422, body = b\<rparr>" and nok500: "\<not> ok \<lparr>status = 500, body = b\<rparr>"
    for b
    by (simp_all add: ok_def)
  from auth_failure_contract
    [OF nok, where err = "JObj [(js ''detail'', JStr (js ''Email already registered''))]"
       and str = "js ''Email already registered''"]
  show "signup (Responded \<lparr>status = 400, body = taken_body\<rparr>)
       = Inl (Error (js ''Email already registered''))"
    by (simp add: response_json_def taken_body_parsed read_prop_def js_def)
  from auth_failure_contract [OF nok401 [of "js ''{}''"], where err = "JObj []"]
  show "login (Responded \<lparr>status = 401, body = js ''{}''\<rparr>)
       = Inl (Error (js ''Login failed''))"
    by (simp add: response_json_def empty_object read_prop_def)
  from auth_failure_contract
    [OF nok422 [of invalid_body],
       where err = "JObj [(js ''detail'', JArr [JObj [(js ''msg'', JStr (js ''field required''))],
                                              JStr (js ''x'')])]"
       and message = "js ''[object Object],x''"]
  show "googleAuth (Responded \<lparr>status = 422, body = invalid_body\<rparr>)
       = Inl (Error (js ''[object Object],x''))"
    by (simp add: response_json_def invalid_body_parsed read_prop_def js_def)
  from auth_failure_contract
    [OF nok400 [of shadowed_body],
       where err = "JObj [(js ''detail'', JObj [(js ''toString'', JNum (to_double 1))])]"
       and thrown = TypeError]
  show "signup (Responded \<lparr>status = 400, body = shadowed_body\<rparr>) = Inl TypeError"
    by (simp add: response_json_def shadowed_body_parsed read_prop_def js_def)
  from auth_failure_contract [OF nok500 [of "js ''null''"]]
  show "login (Responded \<lparr>status = 500, body = js ''null''\<rparr>) = Inl TypeError"
    by (simp add: response_json_def null_body)
  from auth_failure_contract
    [OF nok401 [of "[]"], where w = "browser_with expired_token (js ''/'')"
       and token = expired_token]
  show "getCurrentUser (Responded \<lparr>status = 401, body = []\<rparr>)
         (browser_with expired_token (js ''/''))
       = (Inr JNull, clearToken (browser_with expired_token (js ''/'')))"
    by (simp add: getToken_browser_with expired_token_nonempty)
  from auth_failure_contract
    [OF nok500 [of "[]"], where w = "browser_with expired_token (js ''/'')"
       and token = expired_token]
  show "getCurrentUser (Responded \<lparr>status = 500, body = []\<rparr>)
         (browser_with expired_token (js ''/''))
       = (Inl (Error (js ''Failed to get user info'')),
          browser_with expired_token (js ''/''))"
    by (simp add: getToken_browser_with expired_token_nonempty)
qed

text \<open>
  C7. \<open>handleSendMessage\<close> changes nothing when the trimmed text is empty or no session
  is active. Otherwise the user's message is in the transcript while the network call is
  pending, and when the call fails the transcript ends with the user's message and the
  inline error message, the session id is what it was and the send button is enabled
  again, so the user may retry.
\<close>

theorem sendMessage_contract:
  "(trim (messageInput p) = [] \<or> \<not> truthy (sessionId p) \<longrightarrow>
      handleSendMessage modal_throws net net' p = p)
   \<and> (trim (messageInput p) \<noteq> [] \<and> truthy (sessionId p) \<longrightarrow>
        snd (handleSendMessage_start p) = Some (trim (messageInput p))
        \<and> transcript (fst (handleSendMessage_start p))
            = transcript p @ [(JStr (trim (messageInput p)), js ''user'')]
        \<and> transcript (handleSendMessage modal_throws Rejected net' p)
            = transcript p
              @ [(JStr (trim (messageInput p)), js ''user''),
                 (JStr (js ''Error: Could not send message. Please try again.''),
                  js ''assistant'')]
        \<and> sessionId (handleSendMessage modal_throws Rejected net' p) = sessionId p
        \<and> sendDisabled (handleSendMessage modal_throws Rejected net' p) = False)"
  by (simp add: handleSendMessage_def handleSendMessage_start_def
        handleSendMessage_settled_def send_failed_def addMessage_def setLoading_def Let_def)

lemma trim_hello: "trim (js '' hello '') = js ''hello''"
  by (simp add: trim_def js_whitespace_def js_def)

theorem sendMessage_contract_witness:
  "trim (messageInput example_chat) \<noteq> [] \<and> truthy (sessionId example_chat)
   \<and> transcript (fst (handleSendMessage_start example_chat))
       = [(JStr (js ''Welcome''), js ''assistant''), (JStr (js ''hello''), js ''user'')]
   \<and> transcript (handleSendMessage (\<lambda>v. False) Rejected Rejected example_chat)
       = [(JStr (js ''Welcome''), js ''assistant''), (JStr (js ''hello''), js ''user''),
          (JStr (js ''Error: Could not send message. Please try again.''), js ''assistant'')]
   \<and> sessionId (handleSendMessage (\<lambda>v. False) Rejected Rejected example_chat)
       = JStr (js ''s-1'')
   \<and> trim (messageInput (example_chat\<lparr>messageInput := js ''   ''\<rparr>)) = []
   \<and> handleSendMessage (\<lambda>v. False) Rejected Rejected
         (example_chat\<lparr>messageInput := js ''   ''\<rparr>)
       = example_chat\<lparr>messageInput := js ''   ''\<rparr>"
proof -
  have blank: "trim (js ''   '') = []"
    by (simp add: trim_def js_whitespace_def js_def)
  have msg: "messageInput example_chat = js '' hello ''"
    and sid: "sessionId example_chat = JStr (js ''s-1'')"
    and tr: "transcript example_chat = [(JStr (js ''Welcome''), js ''assistant'')]"
    by (simp_all add: example_chat_def)
  have nonempty: "js ''hello'' \<noteq> []" "js ''s-1'' \<noteq> []"
    by (simp_all add: js_def)
  show ?thesis
    using sendMessage_contract [of example_chat "\<lambda>v. False" Rejected Rejected]
      sendMessage_contract
        [of "example_chat\<lparr>messageInput := js ''   ''\<rparr>" "\<lambda>v. False" Rejected Rejected]
    by (simp add: msg sid tr trim_hello blank nonempty)
qed

section \<open>The round trip of the claims\<close>

lemma split_on_first:
  "sep \<notin> set h \<Longrightarrow> split_on sep (h @ sep # rest) = h # split_on sep rest"
proof (induction h)
  case Nil
  then show ?case by simp
next
  case (Cons c h)
  then show ?case by simp
qed

lemma split_on_nonempty: "split_on sep s \<noteq> []"
  by (induction s) (auto split: list.splits)

lemma join3:
  fixes a b c :: nat
  shows "(((a div 4) * 64 + ((a mod 4) * 16 + b div 16)) * 64
              + ((b mod 16) * 4 + c div 64)) * 64 + c mod 64 = a * 65536 + b * 256 + c"
proof -
  have lin: "((q1 * 64 + (r1 * 16 + q2)) * 64 + (r2 * 4 + q3)) * 64 + r3
      = (4 * q1 + r1) * 65536 + (16 * q2 + r2) * 256 + (64 * q3 + r3)"
    for q1 r1 q2 r2 q3 r3 :: nat
    by (simp add: algebra_simps)
  show ?thesis
    unfolding lin by simp
qed

lemma split3:
  fixes a b c :: nat
  assumes "b < 256" "c < 256"
  shows "(a * 65536 + b * 256 + c) div 65536 = a"
    and "((a * 65536 + b * 256 + c) div 256) mod 256 = b"
    and "(a * 65536 + b * 256 + c) mod 256 = c"
proof -
  have "b * 256 + c < 65536" using assms by simp
  then show "(a * 65536 + b * 256 + c) div 65536 = a"
    by (simp add: add.assoc)
  have eq: "a * 65536 + b * 256 + c = (a * 256 + b) * 256 + c" by simp
  have "((a * 256 + b) * 256 + c) div 256 = a * 256 + b"
    using assms(2) by (simp only: div_mult_self3 div_less)
  moreover have "(a * 256 + b) mod 256 = b"
    using assms(1) by (simp only: mod_mult_self3 mod_less)
  ultimately show "((a * 65536 + b * 256 + c) div 256) mod 256 = b"
    unfolding eq by simp
  have "((a * 256 + b) * 256 + c) mod 256 = c"
    using assms(2) by (simp only: mod_mult_self3 mod_less)
  then show "(a * 65536 + b * 256 + c) mod 256 = c"
    unfolding eq .
qed

lemma join2:
  fixes a b :: nat
  shows "(((a div 4) * 64 + ((a mod 4) * 16 + b div 16)) * 64 + (b mod 16) * 4) div 4
           = a * 256 + b"
proof -
  have lin: "(q1 * 64 + (r1 * 16 + q2)) * 64 + r2 * 4
      = ((4 * q1 + r1) * 256 + (16 * q2 + r2)) * 4"
    for q1 r1 q2 r2 :: nat
    by (simp add: algebra_simps)
  show ?thesis
    unfolding lin by simp
qed

lemma split2:
  fixes a b :: nat
  assumes "b < 256"
  shows "(a * 256 + b) div 256 = a" "(a * 256 + b) mod 256 = b"
  using assms by simp_all

lemma join1:
  fixes a :: nat
  shows "((a div 4) * 64 + (a mod 4) * 16) div 16 = a"
proof -
  have lin: "q1 * 64 + r1 * 16 = (4 * q1 + r1) * 16" for q1 r1 :: nat
    by (simp add: algebra_simps)
  show ?thesis
    unfolding lin by simp
qed

lemma sext_bounds:
  fixes a b c :: nat
  assumes "a < 256" "b < 256" "c < 256"
  shows "a div 4 < 64" "(a mod 4) * 16 + b div 16 < 64" "(b mod 16) * 4 + c div 64 < 64"
    "c mod 64 < 64" "(b mod 16) * 4 < 64" "(a mod 4) * 16 < 64"
proof -
  have m: "a mod 4 < 4" "b mod 16 < 16" by simp_all
  have d: "a div 4 < 64" "b div 16 < 16" "c div 64 < 4"
    using assms by (simp_all add: div_less_iff_less_mult)
  from m d show "a div 4 < 64" "(a mod 4) * 16 + b div 16 < 64"
    "(b mod 16) * 4 + c div 64 < 64" "(b mod 16) * 4 < 64" "(a mod 4) * 16 < 64"
    by linarith+
  show "c mod 64 < 64" by simp
qed

lemma sextets_bound: "\<forall>b \<in> set bytes. b < 256 \<Longrightarrow> \<forall>v \<in> set (sextets bytes). v < 64"
proof (induction bytes rule: sextets.induct)
  case (1 a b c rest)
  then have "a < 256" "b < 256" "c < 256" by simp_all
  from sext_bounds [OF this] 1 show ?case by simp
next
  case (2 a b)
  then have "a < 256" "b < 256" by simp_all
  from sext_bounds [OF this this(2)] show ?case by simp
next
  case (3 a)
  then have "a < 256" by simp
  from sext_bounds [OF this this this] show ?case by simp
qed simp

lemma b64_value_char: "v < 64 \<Longrightarrow> b64_value (b64_char v) = Some v"
  by (auto simp: b64_value_def b64_char_def)

lemma b64_char_alphabet:
  "v < 64 \<Longrightarrow> b64_char v \<noteq> 61 \<and> \<not> ascii_whitespace (b64_char v)"
  by (auto simp: b64_char_def ascii_whitespace_def)

lemma b64url_char_no_dot: "v < 64 \<Longrightarrow> b64url_char v \<noteq> 46"
  by (auto simp: b64url_char_def b64_char_def)

lemma replace_b64url_char:
  "v < 64 \<Longrightarrow>
   (\<lambda>c. if c = 95 then 47 else c) ((\<lambda>c. if c = 45 then 43 else c) (b64url_char v))
     = b64_char v"
  by (auto simp: b64url_char_def b64_char_def)

lemma replace_base64url:
  assumes "\<forall>v \<in> set vs. v < 64"
  shows "replace_all 95 47 (replace_all 45 43 (map b64url_char vs)) = map b64_char vs"
  using assms by (induction vs) (simp_all add: replace_all_def replace_b64url_char)

lemma b64_values_chars:
  "\<forall>v \<in> set vs. v < 64 \<Longrightarrow> b64_values (map b64_char vs) = Some vs"
  by (induction vs) (simp_all add: b64_value_char)

lemma b64_bytes_sextets:
  "\<forall>b \<in> set bytes. b < 256 \<Longrightarrow> b64_bytes (sextets bytes) = bytes"
proof (induction bytes rule: sextets.induct)
  case (1 a b c rest)
  then have lt: "b < 256" "c < 256" by simp_all
  from 1 have "b64_bytes (sextets rest) = rest" by simp
  then show ?case
    by (simp only: sextets.simps b64_bytes.simps append.simps Let_def join3 split3 [OF lt])
next
  case (2 a b)
  then have "b < 256" by simp
  then show ?case
    by (simp only: sextets.simps b64_bytes.simps Let_def join2 split2)
next
  case (3 a)
  show ?case by (simp only: sextets.simps b64_bytes.simps join1)
qed simp

lemma length_sextets: "length (sextets bytes) mod 4 \<noteq> 1"
  by (induction bytes rule: sextets.induct) simp_all

lemma last_not_padding:
  assumes "\<forall>c \<in> set d. c \<noteq> 61"
  shows "strip_padding d = d"
proof (cases "rev d")
  case Nil
  then show ?thesis by (simp add: strip_padding_def)
next
  case (Cons p r)
  then have "p \<in> set d" by (metis list.set_intros(1) set_rev)
  with assms have p: "p \<noteq> 61" by blast
  show ?thesis
  proof (cases r)
    case Nil
    with Cons show ?thesis by (simp add: strip_padding_def)
  next
    case (Cons q r')
    with \<open>rev d = p # r\<close> p show ?thesis by (simp add: strip_padding_def)
  qed
qed

lemma atob_base64:
  assumes "\<forall>b \<in> set bytes. b < 256"
  shows "atob (map b64_char (sextets bytes)) = Inr bytes"
proof -
  let ?d = "map b64_char (sextets bytes)"
  have vs: "\<forall>v \<in> set (sextets bytes). v < 64"
    using assms by (rule sextets_bound)
  have "filter (\<lambda>c. \<not> ascii_whitespace c) ?d = ?d"
    using vs by (simp add: filter_id_conv b64_char_alphabet)
  moreover have "strip_padding ?d = ?d"
    using vs by (intro last_not_padding) (auto simp: b64_char_alphabet)
  moreover have "length ?d mod 4 \<noteq> 1"
    using length_sextets [of bytes] by simp
  ultimately show ?thesis
    using vs assms by (simp add: atob_def b64_values_chars b64_bytes_sextets)
qed

lemma second_part_of_token:
  assumes "46 \<notin> set header" "\<forall>b \<in> set bytes. b < 256"
  shows "2 \<le> length (split_on 46 (header @ [46] @ base64url bytes @ [46] @ signature))
         \<and> split_on 46 (header @ [46] @ base64url bytes @ [46] @ signature) ! 1
             = base64url bytes"
proof -
  have "46 \<notin> set (base64url bytes)"
    using sextets_bound [OF assms(2)] by (auto simp: base64url_def b64url_char_no_dot)
  then have "split_on 46 (base64url bytes @ 46 # signature)
      = base64url bytes # split_on 46 signature"
    by (rule split_on_first)
  with split_on_first [OF assms(1), of "base64url bytes @ 46 # signature"]
  show ?thesis by simp
qed

lemma hex_value_digit: "d < 16 \<Longrightarrow> hex_value (hex_digit d) = Some d"
  by (auto simp: hex_value_def hex_digit_def)

lemma percent_escape_byte:
  assumes "b < 256"
  shows "percent_escape b = [37, hex_digit (b div 16), hex_digit (b mod 16)]"
proof (cases "b < 16")
  case True
  then show ?thesis
    by (simp add: percent_escape_def js_def hex_digit_def)
next
  case False
  with assms have "b div 16 < 16" by (simp add: div_less_iff_less_mult)
  with False show ?thesis
    by (simp add: percent_escape_def js_def)
qed

lemma uri_items_escapes:
  assumes "\<forall>b \<in> set bytes. b < 256"
  shows "uri_items (concat (map percent_escape bytes)) = Some (map Octet bytes)"
  using assms
proof (induction bytes)
  case Nil
  then show ?case by simp
next
  case (Cons b bytes)
  then have b: "b < 256" by simp
  then have "b div 16 < 16" by (simp add: div_less_iff_less_mult)
  moreover have "b mod 16 < 16" by simp
  moreover have "b div 16 * 16 + b mod 16 = b" by simp
  ultimately show ?case
    using Cons by (simp add: percent_escape_byte [OF b] hex_value_digit)
qed

lemma utf8_encode_bytes: "c < 1114112 \<Longrightarrow> \<forall>b \<in> set (utf8_encode c). b < 256"
  by (auto simp: utf8_encode_def div_less_iff_less_mult intro: less_trans)

lemma rejoin2: "(c div 64) * 64 + c mod 64 = (c :: nat)"
  by simp

lemma rejoin3: "((c div 4096) * 64 + (c div 64) mod 64) * 64 + c mod 64 = (c :: nat)"
proof -
  have "c div 4096 = (c div 64) div 64"
    by (simp add: div_mult2_eq [symmetric])
  then have "(c div 4096) * 64 + (c div 64) mod 64 = c div 64" by simp
  then show ?thesis by simp
qed

lemma rejoin4:
  "(((c div 262144) * 64 + (c div 4096) mod 64) * 64 + (c div 64) mod 64) * 64 + c mod 64
     = (c :: nat)"
proof -
  have "c div 262144 = (c div 4096) div 64"
    by (simp add: div_mult2_eq [symmetric])
  then have "(c div 262144) * 64 + (c div 4096) mod 64 = c div 4096" by simp
  then show ?thesis by (simp only: rejoin3)
qed

lemma utf8_items_two:
  assumes "192 \<le> b" "b < 224" "continuation b1"
    and "v = (b - 192) * 64 + (b1 - 128)"
    and "128 \<le> v"
  shows "utf8_items (Octet b # Octet b1 # rest)
           = map_option (\<lambda>r. utf16_encode v @ r) (utf8_items rest)"
  using assms by (simp add: Let_def)

lemma utf8_items_three:
  assumes "224 \<le> b" "b < 240" "continuation b1" "continuation b2"
    and "v = ((b - 224) * 64 + (b1 - 128)) * 64 + (b2 - 128)"
    and "2048 \<le> v" "\<not> (55296 \<le> v \<and> v < 57344)"
  shows "utf8_items (Octet b # Octet b1 # Octet b2 # rest)
           = map_option (\<lambda>r. utf16_encode v @ r) (utf8_items rest)"
  using assms by (simp add: Let_def)

lemma utf8_items_four:
  assumes "240 \<le> b" "b < 248" "continuation b1" "continuation b2" "continuation b3"
    and "v = (((b - 240) * 64 + (b1 - 128)) * 64 + (b2 - 128)) * 64 + (b3 - 128)"
    and "65536 \<le> v" "v < 1114112"
  shows "utf8_items (Octet b # Octet b1 # Octet b2 # Octet b3 # rest)
           = map_option (\<lambda>r. utf16_encode v @ r) (utf8_items rest)"
  using assms by (simp add: Let_def)

lemma continuation_byte: "continuation (128 + x mod 64)"
  by (simp add: continuation_def)

lemma utf8_items_encode:
  assumes "scalar_value c"
    and "utf8_items (map Octet bytes) = Some r"
  shows "utf8_items (map Octet (utf8_encode c @ bytes)) = Some (utf16_encode c @ r)"
proof -
  from assms(1) have "c < 1114112" by (auto simp: scalar_value_def)
  then consider "c < 128" | "128 \<le> c" "c < 2048" | "2048 \<le> c" "c < 65536"
    | "65536 \<le> c" "c < 1114112"
    by linarith
  then show ?thesis
  proof cases
    case 1
    with assms(2) show ?thesis
      by (simp add: utf8_encode_def utf16_encode_def)
  next
    case 2
    then have lead: "c div 64 < 32" by (simp add: div_less_iff_less_mult)
    have v: "c = (192 + c div 64 - 192) * 64 + (128 + c mod 64 - 128)"
      by (simp only: add_diff_cancel_left' rejoin2)
    have "utf8_items (Octet (192 + c div 64) # Octet (128 + c mod 64) # map Octet bytes)
        = map_option (\<lambda>r. utf16_encode c @ r) (utf8_items (map Octet bytes))"
      using lead 2 by (intro utf8_items_two continuation_byte v) simp_all
    with 2 assms(2) show ?thesis
      by (simp add: utf8_encode_def)
  next
    case 3
    then have lead: "c div 4096 < 16" by (simp add: div_less_iff_less_mult)
    from 3 assms(1) have ns: "\<not> (55296 \<le> c \<and> c < 57344)"
      by (auto simp: scalar_value_def)
    have v: "c = ((224 + c div 4096 - 224) * 64 + (128 + (c div 64) mod 64 - 128)) * 64
                 + (128 + c mod 64 - 128)"
      by (simp only: add_diff_cancel_left' rejoin3)
    have "utf8_items (Octet (224 + c div 4096) # Octet (128 + (c div 64) mod 64)
             # Octet (128 + c mod 64) # map Octet bytes)
        = map_option (\<lambda>r. utf16_encode c @ r) (utf8_items (map Octet bytes))"
      using lead 3 ns by (intro utf8_items_three continuation_byte v) simp_all
    with 3 assms(2) show ?thesis
      by (simp add: utf8_encode_def)
  next
    case 4
    then have lead: "c div 262144 < 8" by (simp add: div_less_iff_less_mult)
    have v: "c = (((240 + c div 262144 - 240) * 64 + (128 + (c div 4096) mod 64 - 128)) * 64
                  + (128 + (c div 64) mod 64 - 128)) * 64 + (128 + c mod 64 - 128)"
      by (simp only: add_diff_cancel_left' rejoin4)
    have "utf8_items (Octet (240 + c div 262144) # Octet (128 + (c div 4096) mod 64)
             # Octet (128 + (c div 64) mod 64) # Octet (128 + c mod 64) # map Octet bytes)
        = map_option (\<lambda>r. utf16_encode c @ r) (utf8_items (map Octet bytes))"
      using lead 4 by (intro utf8_items_four continuation_byte v) simp_all
    with 4 assms(2) show ?thesis
      by (simp add: utf8_encode_def)
  qed
qed

lemma utf8_items_utf8:
  assumes "\<forall>c \<in> set cps. scalar_value c"
  shows "utf8_items (map Octet (utf8 cps)) = Some (utf16 cps)"
  using assms
proof (induction cps)
  case Nil
  then show ?case by (simp add: utf8_def utf16_def)
next
  case (Cons c cps)
  then have "scalar_value c" and "utf8_items (map Octet (utf8 cps)) = Some (utf16 cps)"
    by simp_all
  from utf8_items_encode [OF this] show ?case
    by (simp add: utf8_def utf16_def)
qed

lemma utf8_bytes:
  assumes "\<forall>c \<in> set cps. scalar_value c"
  shows "\<forall>b \<in> set (utf8 cps). b < 256"
proof
  fix b
  assume "b \<in> set (utf8 cps)"
  then obtain c where c: "c \<in> set cps" and b: "b \<in> set (utf8_encode c)"
    by (auto simp: utf8_def)
  from assms c have "c < 1114112" by (auto simp: scalar_value_def)
  from utf8_encode_bytes [OF this] b show "b < 256" by blast
qed

lemma decodeURIComponent_utf8:
  assumes "\<forall>c \<in> set cps. scalar_value c"
  shows "decodeURIComponent (concat (map percent_escape (utf8 cps))) = Inr (utf16 cps)"
  using uri_items_escapes [OF utf8_bytes [OF assms]] utf8_items_utf8 [OF assms]
  by (simp add: decodeURIComponent_def)

lemma utf16_Nil: "utf16 [] = []"
  by (simp add: utf16_def)

lemma utf16_append: "utf16 (xs @ ys) = utf16 xs @ utf16 ys"
  by (simp add: utf16_def)

lemma utf16_Cons: "utf16 (c # cs) = utf16_encode c @ utf16 cs"
  by (simp add: utf16_def)

lemma utf16_ascii: "\<forall>c \<in> set cs. c < 128 \<Longrightarrow> utf16 cs = cs"
  by (induction cs) (simp_all add: utf16_def utf16_encode_def)

lemma hex_digit_ascii: "d < 16 \<Longrightarrow> hex_digit d < 128"
  by (simp add: hex_digit_def)

lemma hex_value_zero: "hex_value 48 = Some 0"
  by (simp add: hex_value_def)

lemma lex_string_literal:
  assumes "32 \<le> c" "c \<noteq> 34" "c \<noteq> 92"
  shows "lex_string (c # cs) = map_option (\<lambda>(s, rest). (c # s, rest)) (lex_string cs)"
  using assms by (simp add: lex_char_def)

lemma lex_string_escape:
  "lex_string (utf16 (json_escape c) @ cs)
     = map_option (\<lambda>(s, rest). (utf16_encode c @ s, rest)) (lex_string cs)"
  if "scalar_value c"
proof -
  consider "c = 34" | "c = 92" | "c < 32" | "32 \<le> c" "c \<noteq> 34" "c \<noteq> 92" "c < 65536"
    | "65536 \<le> c"
    by linarith
  then show ?thesis
  proof cases
    case 1
    then show ?thesis
      by (simp add: json_escape_def utf16_def utf16_encode_def lex_char_def escape_char_def)
  next
    case 2
    then show ?thesis
      by (simp add: json_escape_def utf16_def utf16_encode_def lex_char_def escape_char_def)
  next
    case 3
    then have d: "c div 16 < 16" "c mod 16 < 16" by simp_all
    have dlt: "hex_digit (c div 16) < 65536" "hex_digit (c mod 16) < 65536"
      using hex_digit_ascii [OF d(1)] hex_digit_ascii [OF d(2)] by linarith+
    have "c div 16 * 16 + c mod 16 = c" by simp
    with 3 d dlt show ?thesis
      by (simp add: json_escape_def utf16_def utf16_encode_def lex_char_def
            hex_value_digit hex_value_zero)
  next
    case 4
    then show ?thesis
      by (simp add: json_escape_def utf16_def utf16_encode_def lex_char_def)
  next
    case 5
    let ?hi = "55296 + (c - 65536) div 1024"
    let ?lo = "56320 + (c - 65536) mod 1024"
    have hi: "32 \<le> ?hi" "?hi \<noteq> 34" "?hi \<noteq> 92" and lo: "32 \<le> ?lo" "?lo \<noteq> 34" "?lo \<noteq> 92"
      by simp_all
    from 5 have enc: "utf16 (json_escape c) = [?hi, ?lo]"
      by (simp add: json_escape_def utf16_def utf16_encode_def)
    from 5 have enc': "utf16_encode c = [?hi, ?lo]"
      by (simp add: utf16_encode_def)
    show ?thesis
      unfolding enc enc'
      by (simp only: append.simps lex_string_literal [OF hi] lex_string_literal [OF lo])
         (simp add: option.map_comp comp_def split_def)
  qed
qed

lemma lex_string_escaped:
  assumes "\<forall>c \<in> set s. scalar_value c"
  shows "lex_string (utf16 (concat (map json_escape s)) @ 34 # rest) = Some (utf16 s, rest)"
  using assms
proof (induction s)
  case Nil
  then show ?case by (simp add: utf16_def)
next
  case (Cons c s)
  then have c: "scalar_value c"
    and ih: "lex_string (utf16 (concat (map json_escape s)) @ 34 # rest) = Some (utf16 s, rest)"
    by simp_all
  have "lex_string (utf16 (concat (map json_escape (c # s))) @ 34 # rest)
      = lex_string (utf16 (json_escape c) @ (utf16 (concat (map json_escape s)) @ 34 # rest))"
    by (simp add: utf16_append)
  also have "\<dots> = Some (utf16_encode c @ utf16 s, rest)"
    by (simp add: lex_string_escape [OF c] ih)
  finally show ?case by (simp add: utf16_Cons)
qed

lemma claims_text:
  "utf16 (claims_json c)
     = [123, 34, 115, 117, 98, 34, 58, 34] @ utf16 (concat (map json_escape (claim_sub c)))
       @ 34 # [44, 34, 101, 109, 97, 105, 108, 34, 58, 34]
       @ utf16 (concat (map json_escape (claim_email c)))
       @ 34 # onboarded_member (claim_onboarded c) @ [125]"
  by (cases "claim_onboarded c")
     (simp_all add: claims_json_def json_string_def utf16_append utf16_Cons utf16_Nil
          utf16_encode_def js_def onboarded_member_def)

lemma tokens_of_onboarded:
  "json_tokens (onboarded_member ob @ [125])
     = Some ((case ob of
                None \<Rightarrow> []
              | Some b \<Rightarrow> [Comma, TString (js ''is_onboarded''), Colon,
                           if b then TTrue else TFalse]) @ [RBrace])"
proof (cases ob)
  case None
  then show ?thesis by (simp add: onboarded_member_def)
next
  case (Some b)
  then show ?thesis
    by (cases b) (simp_all add: onboarded_member_def js_def lex_char_def is_digit_def)
qed

lemma tokens_of_claims:
  assumes "\<forall>x \<in> set (claim_sub c). scalar_value x"
    and "\<forall>x \<in> set (claim_email c). scalar_value x"
  shows "json_tokens (utf16 (claims_json c))
           = Some ([LBrace, TString (js ''sub''), Colon, TString (utf16 (claim_sub c)), Comma,
                    TString (js ''email''), Colon, TString (utf16 (claim_email c))]
                   @ (case claim_onboarded c of
                        None \<Rightarrow> []
                      | Some b \<Rightarrow> [Comma, TString (js ''is_onboarded''), Colon,
                                   if b then TTrue else TFalse])
                   @ [RBrace])"
  unfolding claims_text
  by (simp add: lex_string_escaped [OF assms(1)] lex_string_escaped [OF assms(2)]
        tokens_of_onboarded lex_char_def is_digit_def js_def)

lemma JSON_parse_claims:
  assumes "\<forall>x \<in> set (claim_sub c). scalar_value x"
    and "\<forall>x \<in> set (claim_email c). scalar_value x"
  shows "JSON_parse (utf16 (claims_json c))
           = Inr (JObj ([(js ''sub'', JStr (utf16 (claim_sub c))),
                         (js ''email'', JStr (utf16 (claim_email c)))]
                        @ (case claim_onboarded c of
                             None \<Rightarrow> []
                           | Some b \<Rightarrow> [(js ''is_onboarded'', JBool b)])))"
proof (cases "claim_onboarded c")
  case None
  then show ?thesis
    by (simp add: JSON_parse_def tokens_of_claims [OF assms] js_def set_prop_name)
next
  case (Some b)
  then show ?thesis
    by (simp add: JSON_parse_def tokens_of_claims [OF assms] js_def set_prop_name)
qed

lemma json_escape_scalar: "scalar_value c \<Longrightarrow> x \<in> set (json_escape c) \<Longrightarrow> scalar_value x"
  by (auto simp: json_escape_def scalar_value_def hex_digit_def split: if_splits)

lemma json_string_scalar:
  assumes "\<forall>x \<in> set s. scalar_value x"
  shows "\<forall>x \<in> set (json_string s). scalar_value x"
proof
  fix x
  assume "x \<in> set (json_string s)"
  then consider "x = 34" | c where "c \<in> set s" "x \<in> set (json_escape c)"
    by (auto simp: json_string_def)
  then show "scalar_value x"
  proof cases
    case 1
    then show ?thesis by (simp add: scalar_value_def)
  next
    case 2
    with assms json_escape_scalar show ?thesis by blast
  qed
qed

lemma ascii_scalar: "x < 128 \<Longrightarrow> scalar_value x"
  by (simp add: scalar_value_def)

lemma onboarded_member_scalar: "\<forall>x \<in> set (onboarded_member ob). scalar_value x"
  by (cases ob) (auto simp: onboarded_member_def js_def scalar_value_def)

lemma claims_json_scalar:
  assumes "\<forall>x \<in> set (claim_sub c). scalar_value x"
    and "\<forall>x \<in> set (claim_email c). scalar_value x"
  shows "\<forall>x \<in> set (claims_json c). scalar_value x"
  using json_string_scalar [OF assms(1)] json_string_scalar [OF assms(2)]
    onboarded_member_scalar [of "claim_onboarded c"]
  by (auto simp: claims_json_def js_def ascii_scalar)

lemma parseJwt_issued:
  assumes "\<forall>x \<in> set (claim_sub c). scalar_value x"
    and "\<forall>x \<in> set (claim_email c). scalar_value x"
    and "46 \<notin> set header"
  shows "parseJwt (issue_token header c signature)
           = Inr (JObj ([(js ''sub'', JStr (utf16 (claim_sub c))),
                         (js ''email'', JStr (utf16 (claim_email c)))]
                        @ (case claim_onboarded c of
                             None \<Rightarrow> []
                           | Some b \<Rightarrow> [(js ''is_onboarded'', JBool b)])))"
proof -
  let ?bytes = "utf8 (claims_json c)"
  have sc: "\<forall>x \<in> set (claims_json c). scalar_value x"
    using assms(1,2) by (rule claims_json_scalar)
  have bytes: "\<forall>b \<in> set ?bytes. b < 256"
    using sc by (rule utf8_bytes)
  have parts: "2 \<le> length (split_on 46 (issue_token header c signature))"
    "split_on 46 (issue_token header c signature) ! 1 = base64url ?bytes"
    using second_part_of_token [OF assms(3) bytes, of signature]
    by (simp_all add: issue_token_def)
  have b64: "replace_all 95 47 (replace_all 45 43 (base64url ?bytes))
      = map b64_char (sextets ?bytes)"
    unfolding base64url_def using sextets_bound [OF bytes] by (rule replace_base64url)
  have "parseJwt (issue_token header c signature) = JSON_parse (utf16 (claims_json c))"
    using parts
    by (simp add: parseJwt_def Let_def b64 atob_base64 [OF bytes]
          decodeURIComponent_utf8 [OF sc])
  then show ?thesis
    by (simp only: JSON_parse_claims [OF assms(1,2)])
qed

lemma issue_token_nonempty: "issue_token header c signature \<noteq> []"
  by (simp add: issue_token_def)

text \<open>
  C4. \<open>getUserFromToken\<close> round-trips the claims: for every claims object
  \<open>{sub, email, is_onboarded}\<close>, whatever text its strings hold, issued as the middle
  part of a three-part token and stored, it returns the session
  \<open>{user_id: sub, email, is_onboarded}\<close>, with \<open>is_onboarded\<close> false when the claim
  is absent; and it returns \<open>null\<close> whenever the decoding fails.
\<close>

theorem getUserFromToken_roundtrip:
  "((\<forall>x \<in> set (claim_sub c). scalar_value x) \<and> (\<forall>x \<in> set (claim_email c). scalar_value x)
      \<and> 46 \<notin> set header \<longrightarrow>
    getUserFromToken (setToken (issue_token header c signature) w)
      = Some (session_of_claims c))
   \<and> (getToken w' = Some token \<and> parseJwt token = Inl e \<longrightarrow> getUserFromToken w' = None)"
proof (intro conjI impI)
  assume a: "(\<forall>x \<in> set (claim_sub c). scalar_value x)
      \<and> (\<forall>x \<in> set (claim_email c). scalar_value x) \<and> 46 \<notin> set header"
  let ?payload = "JObj ([(js ''sub'', JStr (utf16 (claim_sub c))),
                         (js ''email'', JStr (utf16 (claim_email c)))]
                        @ (case claim_onboarded c of
                             None \<Rightarrow> []
                           | Some b \<Rightarrow> [(js ''is_onboarded'', JBool b)]))"
  from a have p: "parseJwt (issue_token header c signature) = Inr ?payload"
    by (intro parseJwt_issued) simp_all
  have t: "getToken (setToken (issue_token header c signature) w)
      = Some (issue_token header c signature)"
    by (simp add: getToken_def setToken_def)
  have "getUserFromToken (setToken (issue_token header c signature) w)
      = Some \<lparr>user_id = read_prop ?payload (js ''sub''),
               email = read_prop ?payload (js ''email''),
               is_onboarded = js_or (read_prop ?payload (js ''is_onboarded'')) (JBool False)\<rparr>"
    by (rule getUserFromToken_decoded [OF t issue_token_nonempty p]) simp
  also have "\<dots> = Some (session_of_claims c)"
    by (cases "claim_onboarded c")
       (auto simp: session_of_claims_def read_prop_def js_or_def js_def)
  finally show "getUserFromToken (setToken (issue_token header c signature) w)
      = Some (session_of_claims c)" .
next
  assume "getToken w' = Some token \<and> parseJwt token = Inl e"
  then show "getUserFromToken w' = None"
    by (simp add: getUserFromToken_def)
qed

lemma example_token:
  "issue_token (js ''h'') example_claims (js ''s'')
     = js ''h.eyJzdWIiOiJab8OrIiwiZW1haWwiOiLml6XmnKxAYi5jb20iLCJpc19vbmJvYXJkZWQiOnRydWV9.s''"
  by (simp add: issue_token_def example_claims_def claims_json_def onboarded_member_def
        json_string_def
        json_escape_def utf8_def utf8_encode_def base64url_def b64url_char_def b64_char_def
        js_def)

theorem getUserFromToken_roundtrip_witness:
  "list_all scalar_value (claim_sub example_claims)
   \<and> list_all scalar_value (claim_email example_claims)
   \<and> 46 \<notin> set (js ''h'')
   \<and> issue_token (js ''h'') example_claims (js ''s'')
       = js ''h.eyJzdWIiOiJab8OrIiwiZW1haWwiOiLml6XmnKxAYi5jb20iLCJpc19vbmJvYXJkZWQiOnRydWV9.s''
   \<and> getUserFromToken
         (setToken (issue_token (js ''h'') example_claims (js ''s''))
            (browser_with [] (js ''/'')))
       = Some \<lparr>user_id = JStr [90, 111, 235],
                email = JStr [26085, 26412, 64, 98, 46, 99, 111, 109],
                is_onboarded = JBool True\<rparr>
   \<and> getUserFromToken (browser_with (js ''not-a-token'') (js ''/'')) = None"
proof -
  have sc: "list_all scalar_value (claim_sub example_claims)"
    "list_all scalar_value (claim_email example_claims)"
    by (simp_all add: example_claims_def scalar_value_def)
  have h: "46 \<notin> set (js ''h'')" by (simp add: js_def)
  have bad: "parseJwt (js ''not-a-token'') = Inl TypeError"
    by (simp add: parseJwt_def js_def)
  have s: "session_of_claims example_claims
      = \<lparr>user_id = JStr [90, 111, 235],
         email = JStr [26085, 26412, 64, 98, 46, 99, 111, 109],
         is_onboarded = JBool True\<rparr>"
    by (simp add: session_of_claims_def example_claims_def utf16_def utf16_encode_def)
  from getUserFromToken_roundtrip
    [of example_claims "js ''h''" "js ''s''" "browser_with [] (js ''/'')"
        "browser_with (js ''not-a-token'') (js ''/'')" "js ''not-a-token''" TypeError]
    sc h bad s example_token
  show ?thesis
    by (simp add: list_all_iff getToken_browser_with)
qed

end
